theory Spec2Isabelle
  imports Complex_Main
begin

section \<open>Time values\<close>

text \<open>
  A JavaScript \<open>Date\<close> is modelled by its time value: an integer number of milliseconds
  since the epoch. The local time zone is taken to be a fixed-offset zone with offset zero,
  so local calendar fields are read off the time value directly (no daylight saving).
  A date-only string \<open>yyyy-MM-dd\<close> is modelled by its day number (days since the epoch).
\<close>

type_synonym timestamp = int
type_synonym daynum = int

definition MS_PER_DAY :: int where
  "MS_PER_DAY = 86400000"

definition day_of :: "timestamp \<Rightarrow> daynum" where
  "day_of t = t div MS_PER_DAY"

definition time_of_day :: "timestamp \<Rightarrow> int" where
  "time_of_day t = t mod MS_PER_DAY"

text \<open>\<open>parseISO\<close> of a date-only string gives local midnight of that day.\<close>

definition parseISO_date :: "daynum \<Rightarrow> timestamp" where
  "parseISO_date d = d * MS_PER_DAY"

text \<open>\<open>format(date, 'yyyy-MM-dd')\<close> keeps the calendar day only.\<close>

definition format_date :: "timestamp \<Rightarrow> daynum" where
  "format_date t = day_of t"

subsection \<open>The date-fns functions the pages call\<close>

text \<open>
  \<open>differenceInCalendarDays\<close> compares the start-of-day of both arguments, so the
  time of day is ignored.
\<close>

definition differenceInCalendarDays :: "timestamp \<Rightarrow> timestamp \<Rightarrow> int" where
  "differenceInCalendarDays dateLeft dateRight = day_of dateLeft - day_of dateRight"

definition compareLocalAsc :: "timestamp \<Rightarrow> timestamp \<Rightarrow> int" where
  "compareLocalAsc dateLeft dateRight = sgn (dateLeft - dateRight)"

text \<open>
  \<open>differenceInDays\<close> counts full days: the calendar difference, lowered by one in
  absolute value when the last calendar day is not complete.
\<close>

definition differenceInDays :: "timestamp \<Rightarrow> timestamp \<Rightarrow> int" where
  "differenceInDays dateLeft dateRight =
     (let sign = compareLocalAsc dateLeft dateRight;
          difference = \<bar>differenceInCalendarDays dateLeft dateRight\<bar>;
          moved = dateLeft - sign * difference * MS_PER_DAY;
          isLastDayNotFull = (if compareLocalAsc moved dateRight = - sign then 1 else 0)
      in sign * (difference - isLastDayNotFull))"

text \<open>\<open>differenceInSeconds\<close> truncates the millisecond difference towards zero.\<close>

definition trunc_div :: "int \<Rightarrow> int \<Rightarrow> int" where
  "trunc_div a b = sgn a * sgn b * (\<bar>a\<bar> div \<bar>b\<bar>)"

definition differenceInSeconds :: "timestamp \<Rightarrow> timestamp \<Rightarrow> int" where
  "differenceInSeconds dateLeft dateRight = trunc_div (dateLeft - dateRight) 1000"

section \<open>Leave requests: duration in days\<close>

text \<open>
  A form field holding a date is \<open>null\<close>, an invalid \<open>Date\<close> or a valid one.
\<close>

datatype date_value = DNull | DInvalid | DValid timestamp

text \<open>
  \<open>LeaveManagementPage.calculateDays\<close>: 0 when a date is missing, otherwise
  \<open>differenceInCalendarDays(endDate, startDate) + 1\<close>. An invalid \<open>Date\<close> is truthy
  and makes the result \<open>NaN\<close>, modelled as \<open>None\<close>.
\<close>

fun calculateDays :: "date_value \<Rightarrow> date_value \<Rightarrow> int option" where
  "calculateDays DNull endDate = Some 0"
| "calculateDays startDate DNull = Some 0"
| "calculateDays (DValid s) (DValid e) = Some (differenceInCalendarDays e s + 1)"
| "calculateDays startDate endDate = None"

text \<open>
  \<open>LeaveRequestsTable.calculateDuration\<close>: both date strings are parsed and
  \<open>differenceInDays(end, start) + 1\<close> is returned.
\<close>

definition calculateDuration :: "daynum \<Rightarrow> daynum \<Rightarrow> int" where
  "calculateDuration startDate endDate =
     (let start = parseISO_date startDate; end = parseISO_date endDate
      in differenceInDays end start + 1)"

section \<open>Errors\<close>

text \<open>
  The error kinds of the engine, and the two JavaScript exceptions the pages can raise
  inside their \<open>try\<close> blocks. A page that refuses a form with an alert and returns
  without calling the API is a \<open>ValidationError\<close>.
\<close>

datatype error =
  ValidationError | ConflictError | NotFoundError | PermissionError
  | JSTypeError | JSRangeError

section \<open>JavaScript helpers\<close>

text \<open>
  Relational comparison of two date fields converts each to a number: \<open>null\<close> is 0,
  an invalid \<open>Date\<close> is \<open>NaN\<close>, and every comparison with \<open>NaN\<close> is false.
\<close>

fun to_number :: "date_value \<Rightarrow> int option" where
  "to_number DNull = Some 0"
| "to_number DInvalid = None"
| "to_number (DValid t) = Some t"



definition js_ge :: "date_value \<Rightarrow> date_value \<Rightarrow> bool" where
  "js_ge a b = (case (to_number a, to_number b) of (Some x, Some y) \<Rightarrow> x \<ge> y | _ \<Rightarrow> False)"


text \<open>
  \<open>String.prototype.trim\<close>. A string is modelled by its list of code units, each below
  256. Of these, \<open>trim\<close> removes the white space and line terminators U+0009 to U+000D,
  U+0020 and the no-break space U+00A0.
\<close>

definition is_white :: "char \<Rightarrow> bool" where
  "is_white c =
     (c \<in> set [CHR '' '', CHR 0x09, CHR 0x0A, CHR 0x0B, CHR 0x0C, CHR 0x0D, CHR 0xA0])"

definition trim :: "string \<Rightarrow> string" where
  "trim s = rev (dropWhile is_white (rev (dropWhile is_white s)))"

text \<open>\<open>s.trim() || null\<close>: the empty string is falsy.\<close>

definition trim_or_null :: "string \<Rightarrow> string option" where
  "trim_or_null s = (let t = trim s in if t = [] then None else Some t)"

text \<open>Decimal rendering of an integer inside a template string.\<close>

definition digit_char :: "nat \<Rightarrow> char" where
  "digit_char n = ''0123456789'' ! n"

fun show_nat :: "nat \<Rightarrow> string" where
  "show_nat n =
     (if n < 10 then [digit_char n]
      else show_nat (n div 10) @ [digit_char (n mod 10)])"

declare show_nat.simps [simp del]

definition show_int :: "int \<Rightarrow> string" where
  "show_int i = (if i < 0 then CHR ''-'' # show_nat (nat (- i)) else show_nat (nat i))"

section \<open>Leave requests: the request form\<close>

record leave_form =
  leaveType :: string
  startDate :: date_value
  endDate :: date_value
  reason :: string









section \<open>Dashboard: formatting hours\<close>

text \<open>
  \<open>Math.round\<close> rounds to the nearest integer, halves upwards. The hours value is a
  real number here; at a dyadic input such as \<open>255/128\<close> every intermediate value is
  exactly representable in binary floating point, so the two agree there.
\<close>

definition Math_round :: "real \<Rightarrow> int" where
  "Math_round x = \<lfloor>x + 1 / 2\<rfloor>"

definition formatHours_parts :: "real \<Rightarrow> int \<times> int" where
  "formatHours_parts hours =
     (let wholeHours = \<lfloor>hours\<rfloor>;
          minutes = Math_round ((hours - of_int wholeHours) * 60)
      in (wholeHours, minutes))"

text \<open>
  \<open>TimeBalanceCard.formatHours\<close> and \<open>OvertimeWidget.formatHours\<close> (the same body):
  the template string \<open>${wholeHours}h ${minutes}m\<close>.
\<close>

definition formatHours :: "real \<Rightarrow> string" where
  "formatHours hours =
     (case formatHours_parts hours of
        (wholeHours, minutes) \<Rightarrow> show_int wholeHours @ ''h '' @ show_int minutes @ ''m'')"

section \<open>Time entries\<close>

text \<open>
  The body of a create or update request for a time entry, and an entry as the API
  returns it. ISO strings of instants are modelled by their time values; a field that
  is \<open>null\<close> or left out is \<open>None\<close>.
\<close>

record time_entry_data =
  start_time :: timestamp
  end_time :: "timestamp option"
  description :: "string option"
  is_manual_entry :: bool

record time_entry = time_entry_data +
  entry_id :: nat
  is_approved :: bool

datatype entry_call =
  CreateTimeEntry time_entry_data
  | UpdateTimeEntry nat time_entry_data

fun entry_call_data :: "entry_call \<Rightarrow> time_entry_data" where
  "entry_call_data (CreateTimeEntry d) = d"
| "entry_call_data (UpdateTimeEntry i d) = d"

subsection \<open>The manual entry form of \<open>TimeTrackingPage\<close>\<close>

record entry_form =
  date :: date_value
  startTime :: date_value
  endTime :: date_value
  formDescription :: string
  isManualEntry :: bool

definition getHours :: "timestamp \<Rightarrow> int" where
  "getHours t = (t mod MS_PER_DAY) div 3600000"

definition getMinutes :: "timestamp \<Rightarrow> int" where
  "getMinutes t = (t mod 3600000) div 60000"

text \<open>
  \<open>setHours(h, m, s)\<close> replaces hours, minutes and seconds and keeps the calendar day
  and the milliseconds.
\<close>

definition setHours :: "timestamp \<Rightarrow> int \<Rightarrow> int \<Rightarrow> int \<Rightarrow> timestamp" where
  "setHours t h m s = t - t mod MS_PER_DAY + h * 3600000 + m * 60000 + s * 1000 + t mod 1000"

text \<open>\<open>new Date(x)\<close> for a form field: \<open>new Date(null)\<close> is the epoch.\<close>

fun new_Date :: "date_value \<Rightarrow> date_value" where
  "new_Date DNull = DValid 0"
| "new_Date d = d"

text \<open>
  The date of the form with the hours and minutes of a time field, seconds set to 0:
  \<open>d = new Date(formData.date); d.setHours(time.getHours(), time.getMinutes(), 0)\<close>.
\<close>

definition combineDateTime :: "timestamp \<Rightarrow> timestamp \<Rightarrow> timestamp" where
  "combineDateTime base tm = setHours base (getHours tm) (getMinutes tm) 0"

text \<open>
  A \<open>Date\<close> holds a time value of at most 8.64e15 milliseconds in absolute value: a
  setter whose result is beyond that range leaves an invalid \<open>Date\<close>.
\<close>

definition MAX_TIME :: int where
  "MAX_TIME = 8640000000000000"

definition TimeClip :: "int \<Rightarrow> date_value" where
  "TimeClip v = (if \<bar>v\<bar> \<le> MAX_TIME then DValid v else DInvalid)"

text \<open>
  Reading \<open>getHours\<close> of \<open>null\<close> throws a \<open>TypeError\<close>; an invalid date or time
  gives an invalid \<open>Date\<close>.
\<close>

definition combine :: "date_value \<Rightarrow> date_value \<Rightarrow> error + date_value" where
  "combine d tm =
     (case tm of
        DNull \<Rightarrow> Inl JSTypeError
      | DInvalid \<Rightarrow> Inr DInvalid
      | DValid t \<Rightarrow>
         (case new_Date d of
            DValid base \<Rightarrow> Inr (TimeClip (combineDateTime base t))
          | _ \<Rightarrow> Inr DInvalid))"

text \<open>\<open>toISOString\<close> throws a \<open>RangeError\<close> on an invalid \<open>Date\<close>.\<close>

fun toISOString :: "date_value \<Rightarrow> error + timestamp" where
  "toISOString (DValid t) = Inr t"
| "toISOString d = Inl JSRangeError"

text \<open>
  \<open>TimeTrackingPage.handleSubmit\<close>, up to the API call it issues. The second argument
  is the id of the entry being edited, if any. The form is refused, with an alert and
  no API call, when an end time is present and the combined start is not before the
  combined end.
\<close>

definition handleSubmit_entry :: "entry_form \<Rightarrow> nat option \<Rightarrow> error + entry_call" where
  "handleSubmit_entry formData editingEntry =
     (case combine (date formData) (startTime formData) of
        Inl e \<Rightarrow> Inl e
      | Inr combinedStartTime \<Rightarrow>
         (case (if endTime formData = DNull then Inr DNull
                else combine (date formData) (endTime formData)) of
            Inl e \<Rightarrow> Inl e
          | Inr combinedEndTime \<Rightarrow>
             if combinedEndTime \<noteq> DNull \<and> js_ge combinedStartTime combinedEndTime
             then Inl ValidationError
             else
               (case toISOString combinedStartTime of
                  Inl e \<Rightarrow> Inl e
                | Inr st \<Rightarrow>
                   (case (if combinedEndTime = DNull then Inr None
                          else map_sum id Some (toISOString combinedEndTime)) of
                      Inl e \<Rightarrow> Inl e
                    | Inr en \<Rightarrow>
                       (let timeEntryData =
                              \<lparr>start_time = st, end_time = en,
                               description = Some (formDescription formData),
                               is_manual_entry = isManualEntry formData\<rparr>
                        in case editingEntry of
                             Some i \<Rightarrow> Inr (UpdateTimeEntry i timeEntryData)
                           | None \<Rightarrow> Inr (CreateTimeEntry timeEntryData))))))"

text \<open>
  Invariant I3 on the body of a request, an entry or an interval: an end, when present,
  is strictly after the start.
\<close>

definition I3 :: "'a time_entry_data_scheme \<Rightarrow> bool" where
  "I3 d = (case end_time d of None \<Rightarrow> True | Some e \<Rightarrow> start_time d < e)"

subsection \<open>The entries table: daily totals\<close>

text \<open>
  \<open>TimeEntriesTable.groupedEntries\<close>: a \<open>reduce\<close> whose callback appends each entry
  to the list kept under the calendar day of its start time.
\<close>

definition group_step ::
  "(daynum \<rightharpoonup> time_entry list) \<Rightarrow> time_entry \<Rightarrow> (daynum \<rightharpoonup> time_entry list)" where
  "group_step acc entry =
     (let date = format_date (start_time entry)
      in acc(date \<mapsto> (case acc date of None \<Rightarrow> [] | Some es \<Rightarrow> es) @ [entry]))"

definition groupedEntries :: "time_entry list \<Rightarrow> (daynum \<rightharpoonup> time_entry list)" where
  "groupedEntries entries = foldl group_step Map.empty entries"

text \<open>
  The loop of \<open>TimeEntriesTable.calculateDailyTotal\<close>: an entry with an end time adds
  \<open>differenceInSeconds(end, start)\<close>.
\<close>

definition totalSeconds_of :: "time_entry list \<Rightarrow> int" where
  "totalSeconds_of entries =
     foldl (\<lambda>totalSeconds entry.
              case end_time entry of
                Some e \<Rightarrow> totalSeconds + differenceInSeconds e (start_time entry)
              | None \<Rightarrow> totalSeconds)
           0 entries"

text \<open>The remainder operator of JavaScript takes the sign of the dividend.\<close>

definition js_rem :: "int \<Rightarrow> int \<Rightarrow> int" where
  "js_rem a b = a - b * trunc_div a b"

definition calculateDailyTotal :: "time_entry list \<Rightarrow> string" where
  "calculateDailyTotal entries =
     (let totalSeconds = totalSeconds_of entries;
          hours = totalSeconds div 3600;
          minutes = js_rem totalSeconds 3600 div 60
      in show_int hours @ ''h '' @ show_int minutes @ ''m'')"

text \<open>
  The table shows one total per day that has a group: \<open>calculateDailyTotal\<close> of the
  group of that day. A day without a group shows nothing.
\<close>

definition dailyTotalShown :: "time_entry list \<Rightarrow> daynum \<Rightarrow> string option" where
  "dailyTotalShown entries d = map_option calculateDailyTotal (groupedEntries entries d)"

text \<open>
  For comparison, the daily total of the specification: the part of each closed entry
  that falls on day \<open>d\<close>, clipped at both midnights, summed in whole seconds.
\<close>

definition clipped_seconds :: "daynum \<Rightarrow> time_entry \<Rightarrow> int" where
  "clipped_seconds d entry =
     (case end_time entry of
        None \<Rightarrow> 0
      | Some e \<Rightarrow>
          trunc_div (max 0 (min e ((d + 1) * MS_PER_DAY) - max (start_time entry) (d * MS_PER_DAY)))
            1000)"

definition dailyTotals_clipped :: "time_entry list \<Rightarrow> daynum \<Rightarrow> int" where
  "dailyTotals_clipped entries d = sum_list (map (clipped_seconds d) entries)"

text \<open>The whole duration of an entry in seconds, 0 while it is open.\<close>

definition entry_seconds :: "time_entry \<Rightarrow> int" where
  "entry_seconds entry =
     (case end_time entry of
        None \<Rightarrow> 0
      | Some e \<Rightarrow> differenceInSeconds e (start_time entry))"

subsection \<open>Live tracking\<close>

text \<open>
  The request bodies the three start buttons pass to \<open>createTimeEntry\<close>:
  \<open>TimeTracker.startTracking\<close>, \<open>TimeTrackerCard.startTracking\<close> and the start branch
  of \<open>TopBar.handleTrackingToggle\<close>. The argument \<open>now\<close> is \<open>new Date()\<close>.
\<close>

definition startTracking_body :: "timestamp \<Rightarrow> string \<Rightarrow> time_entry_data" where
  "startTracking_body now trackerDescription =
     \<lparr>start_time = now, end_time = None,
      description = trim_or_null trackerDescription, is_manual_entry = False\<rparr>"

definition card_startTracking_body :: "timestamp \<Rightarrow> time_entry_data" where
  "card_startTracking_body now =
     \<lparr>start_time = now, end_time = None, description = None, is_manual_entry = False\<rparr>"

definition topBar_start_body :: "timestamp \<Rightarrow> time_entry_data" where
  "topBar_start_body now =
     \<lparr>start_time = now, end_time = None, description = None, is_manual_entry = False\<rparr>"

text \<open>
  The mutation \<open>createTimeEntry\<close> is a call to the server. It is a parameter of the
  three functions below: given the request body and the state of the server it returns
  the outcome of \<open>unwrap\<close> (the created entry, or an error that is thrown) and the new
  state of the server.
\<close>

text \<open>
  \<open>TopBar.handleTrackingToggle\<close>, with the state of the server passed along. When
  \<open>tracking\<close> is set the flag is only cleared; otherwise an entry is created and the flag
  is set if the call succeeds.
\<close>

definition handleTrackingToggle ::
  "(time_entry_data \<Rightarrow> 's \<Rightarrow> (error + time_entry) \<times> 's) \<Rightarrow> timestamp \<Rightarrow> bool \<times> 's \<Rightarrow> bool \<times> 's" where
  "handleTrackingToggle createTimeEntry now state =
     (case state of (tracking, srv) \<Rightarrow>
        if tracking then (False, srv)
        else
          (case createTimeEntry (topBar_start_body now) srv of
             (Inr result, srv') \<Rightarrow> (True, srv')
           | (Inl e, srv') \<Rightarrow> (tracking, srv')))"

text \<open>
  \<open>TimeTracker.startTracking\<close>: the state of the component, and the function with the
  state of the server passed along. A failed call leaves the component as it was.
\<close>

record tracker_state =
  isTracking :: bool
  elapsedTime :: nat
  trackerDescription :: string
  activeEntryId :: "nat option"
  trackerStartTime :: "timestamp option"
  timerRunning :: bool

definition startTracking ::
  "(time_entry_data \<Rightarrow> 's \<Rightarrow> (error + time_entry) \<times> 's) \<Rightarrow> timestamp \<Rightarrow>
   tracker_state \<times> 's \<Rightarrow> tracker_state \<times> 's" where
  "startTracking createTimeEntry now state =
     (case state of (st, srv) \<Rightarrow>
        (case createTimeEntry (startTracking_body now (trackerDescription st)) srv of
           (Inr result, srv') \<Rightarrow>
             (st\<lparr>activeEntryId := Some (entry_id result), isTracking := True,
                 trackerStartTime := Some now, elapsedTime := 0, timerRunning := True\<rparr>,
              srv')
         | (Inl e, srv') \<Rightarrow> (st, srv')))"

text \<open>
  \<open>TimeTrackerCard.startTracking\<close>: the same without a description field.
\<close>

record card_state =
  cardIsTracking :: bool
  cardActiveEntryId :: "nat option"
  cardElapsedTime :: nat
  cardStartTime :: "timestamp option"
  cardTimerRunning :: bool

definition card_startTracking ::
  "(time_entry_data \<Rightarrow> 's \<Rightarrow> (error + time_entry) \<times> 's) \<Rightarrow> timestamp \<Rightarrow>
   card_state \<times> 's \<Rightarrow> card_state \<times> 's" where
  "card_startTracking createTimeEntry now state =
     (case state of (st, srv) \<Rightarrow>
        (case createTimeEntry (card_startTracking_body now) srv of
           (Inr result, srv') \<Rightarrow>
             (st\<lparr>cardActiveEntryId := Some (entry_id result), cardIsTracking := True,
                 cardStartTime := Some now, cardElapsedTime := 0, cardTimerRunning := True\<rparr>,
              srv')
         | (Inl e, srv') \<Rightarrow> (st, srv')))"

section \<open>The interval ledger\<close>

text \<open>
  The pages only call the time-entry API; the ledger behind it is not part of the
  sources. This section models it from sections 3, 4.1 and 5 of the specification.
\<close>

text \<open>
  Modelled from the spec: the \<open>Interval\<close> entity of section 3, whose store is not in the
  sources: identifier, employee id, start, nullable end, description, manual flag and
  approved flag. It is a time entry of the API together with the employee that owns it.
\<close>

record interval = time_entry +
  employee :: nat

type_synonym ledger = "interval list"

text \<open>
  Modelled from the spec: the roles of section 3 (\<open>normal\<close>, \<open>admin\<close>), supplied by the
  identity collaborator, which is not in the sources.
\<close>

datatype role = Normal | Admin

text \<open>
  Modelled from the spec: the lookups of the ledger, which is not in the sources: the
  interval with a given identifier, the open intervals (\<open>end == null\<close>) of an employee,
  and an identifier not yet in use for a new interval.
\<close>

definition find_interval :: "ledger \<Rightarrow> nat \<Rightarrow> interval option" where
  "find_interval L i = find (\<lambda>iv. entry_id iv = i) L"

definition open_intervals :: "ledger \<Rightarrow> nat \<Rightarrow> interval list" where
  "open_intervals L emp = filter (\<lambda>iv. employee iv = emp \<and> end_time iv = None) L"

definition fresh_id :: "ledger \<Rightarrow> nat" where
  "fresh_id L = (if L = [] then 1 else Suc (Max (set (map entry_id L))))"

text \<open>
  Modelled from the spec: the overlap check of section 4.1, which is not in the sources.
  A candidate range \<open>[s, e)\<close>, with \<open>e = +\<infinity>\<close> when open (\<open>None\<close>), is rejected if an
  existing interval \<open>[s2, e2)\<close> of the employee satisfies \<open>s < e2 && s2 < e\<close>.
\<close>

definition before_end :: "timestamp \<Rightarrow> timestamp option \<Rightarrow> bool" where
  "before_end t e = (case e of None \<Rightarrow> True | Some x \<Rightarrow> t < x)"

definition ranges_overlap ::
  "timestamp \<Rightarrow> timestamp option \<Rightarrow> timestamp \<Rightarrow> timestamp option \<Rightarrow> bool" where
  "ranges_overlap s e s2 e2 = (before_end s e2 \<and> before_end s2 e)"

definition overlapping :: "interval list \<Rightarrow> timestamp \<Rightarrow> timestamp option \<Rightarrow> interval list" where
  "overlapping others s e =
     filter (\<lambda>iv. ranges_overlap s e (start_time iv) (end_time iv)) others"

text \<open>
  Modelled from the spec: \<open>startInterval(employeeId, description?)\<close>, which is not in
  the sources. It fails with \<open>ConflictError\<close> if an open interval already exists for the
  employee; otherwise it creates an interval with \<open>start = now\<close>, \<open>end = null\<close>,
  \<open>manual = false\<close>, \<open>approved = false\<close>.
\<close>

definition startInterval ::
  "ledger \<Rightarrow> nat \<Rightarrow> string option \<Rightarrow> timestamp \<Rightarrow> error + interval \<times> ledger" where
  "startInterval L emp descr now =
     (if open_intervals L emp \<noteq> [] then Inl ConflictError
      else
        (let iv = \<lparr>start_time = now, end_time = None, description = descr,
                   is_manual_entry = False, entry_id = fresh_id L, is_approved = False,
                   employee = emp\<rparr>
         in Inr (iv, L @ [iv])))"

text \<open>
  Modelled from the spec: \<open>stopInterval(intervalId, endTime)\<close>, which is not in the
  sources. It fails with \<open>NotFoundError\<close> if there is no such interval, with
  \<open>ValidationError\<close> if the interval is already closed or \<open>endTime <= start\<close>; on
  success it sets \<open>end = endTime\<close>.
\<close>

definition stopInterval :: "ledger \<Rightarrow> nat \<Rightarrow> timestamp \<Rightarrow> error + interval \<times> ledger" where
  "stopInterval L i endT =
     (case find_interval L i of
        None \<Rightarrow> Inl NotFoundError
      | Some iv \<Rightarrow>
          if end_time iv \<noteq> None then Inl ValidationError
          else if endT \<le> start_time iv then Inl ValidationError
          else
            (let iv' = iv\<lparr>end_time := Some endT\<rparr>
             in Inr (iv', map (\<lambda>x. if entry_id x = i then iv' else x) L)))"

text \<open>
  Modelled from the spec: \<open>createManualInterval(employeeId, start, end, description?)\<close>,
  which is not in the sources. It fails with \<open>ValidationError\<close> if \<open>end <= start\<close>, with
  \<open>ConflictError\<close> if the range overlaps an existing interval of the employee (an open
  one counting as unbounded); it creates with \<open>manual = true\<close>, \<open>approved = false\<close>.
\<close>

definition createManualInterval ::
  "ledger \<Rightarrow> nat \<Rightarrow> timestamp \<Rightarrow> timestamp \<Rightarrow> string option \<Rightarrow> error + interval \<times> ledger" where
  "createManualInterval L emp s e descr =
     (if e \<le> s then Inl ValidationError
      else if overlapping (filter (\<lambda>iv. employee iv = emp) L) s (Some e) \<noteq> []
      then Inl ConflictError
      else
        (let iv = \<lparr>start_time = s, end_time = Some e, description = descr,
                   is_manual_entry = True, entry_id = fresh_id L, is_approved = False,
                   employee = emp\<rparr>
         in Inr (iv, L @ [iv])))"

text \<open>
  Modelled from the spec: \<open>editInterval(intervalId, patch)\<close>, which is not in the
  sources. The patch gives the new range and description. The patched range is
  re-validated against I3 and, for I2, against the other intervals of the same employee;
  a violation fails with \<open>ConflictError\<close>, an unknown id with \<open>NotFoundError\<close>.
\<close>

record interval_patch =
  patch_start :: timestamp
  patch_end :: "timestamp option"
  patch_description :: "string option"

definition editInterval :: "ledger \<Rightarrow> nat \<Rightarrow> interval_patch \<Rightarrow> error + interval \<times> ledger" where
  "editInterval L i p =
     (case find_interval L i of
        None \<Rightarrow> Inl NotFoundError
      | Some iv \<Rightarrow>
          if \<not> before_end (patch_start p) (patch_end p) then Inl ConflictError
          else if overlapping
                    (filter (\<lambda>x. employee x = employee iv \<and> entry_id x \<noteq> i) L)
                    (patch_start p) (patch_end p) \<noteq> []
          then Inl ConflictError
          else
            (let iv' = iv\<lparr>start_time := patch_start p, end_time := patch_end p,
                           description := patch_description p\<rparr>
             in Inr (iv', map (\<lambda>x. if entry_id x = i then iv' else x) L)))"

text \<open>
  Modelled from the spec: \<open>deleteInterval(intervalId, requesterRole)\<close>, which is not in
  the sources. It is permitted for the owner, if the interval is not yet approved, or
  for an admin; otherwise it fails with \<open>PermissionError\<close>.
\<close>

definition deleteInterval :: "ledger \<Rightarrow> nat \<Rightarrow> nat \<Rightarrow> role \<Rightarrow> error + ledger" where
  "deleteInterval L i requester requesterRole =
     (case find_interval L i of
        None \<Rightarrow> Inl NotFoundError
      | Some iv \<Rightarrow>
          if requesterRole = Admin \<or> (requester = employee iv \<and> \<not> is_approved iv)
          then Inr (filter (\<lambda>x. entry_id x \<noteq> i) L)
          else Inl PermissionError)"

text \<open>
  Modelled from the spec: the histories of the ledger, which is not in the sources. The
  mutating operations are serialised per employee (section 5), so a history is a list of
  operations applied one after the other, starting from the empty ledger. A failed
  operation is never partially applied (section 7): it leaves the ledger as it was.
\<close>

datatype ledger_op =
  Start nat "string option" timestamp
  | Stop nat timestamp
  | CreateManual nat timestamp timestamp "string option"
  | Edit nat interval_patch
  | Delete nat nat role

definition committed :: "ledger \<Rightarrow> error + 'a \<times> ledger \<Rightarrow> ledger" where
  "committed L res = (case res of Inl e \<Rightarrow> L | Inr (x, L') \<Rightarrow> L')"

fun apply_op :: "ledger \<Rightarrow> ledger_op \<Rightarrow> ledger" where
  "apply_op L (Start emp descr now) = committed L (startInterval L emp descr now)"
| "apply_op L (Stop i endT) = committed L (stopInterval L i endT)"
| "apply_op L (CreateManual emp s e descr) = committed L (createManualInterval L emp s e descr)"
| "apply_op L (Edit i p) = committed L (editInterval L i p)"
| "apply_op L (Delete i requester requesterRole) =
     (case deleteInterval L i requester requesterRole of Inl e \<Rightarrow> L | Inr L' \<Rightarrow> L')"

definition run_ledger :: "ledger_op list \<Rightarrow> ledger" where
  "run_ledger ops = foldl apply_op [] ops"

subsection \<open>The create call of a live start\<close>

text \<open>
  Modelled from the spec: the handler of the create call, which is not in the sources.
  For the body of a live start, sent on behalf of employee \<open>emp\<close>, it is
  \<open>startInterval\<close> with the body's start time as \<open>now\<close>; the entry returned is the
  interval without its owner.
\<close>

definition live_create ::
  "nat \<Rightarrow> time_entry_data \<Rightarrow> ledger \<Rightarrow> (error + time_entry) \<times> ledger" where
  "live_create emp body L =
     (case startInterval L emp (description body) (start_time body) of
        Inl e \<Rightarrow> (Inl e, L)
      | Inr (iv, L') \<Rightarrow> (Inr (time_entry.truncate iv), L'))"

section \<open>Leave requests: workflow and balance\<close>

subsection \<open>The actions the requests table offers\<close>

datatype row_action = EditAction | CancelAction

text \<open>
  \<open>LeaveRequestsTable\<close>: the edit and cancel buttons of a row are rendered only when
  \<open>request.status === 'pending'\<close>.
\<close>

definition rowActions :: "string \<Rightarrow> row_action list" where
  "rowActions status_text = (if status_text = ''pending'' then [EditAction, CancelAction] else [])"

text \<open>
  \<open>LeaveBalanceCard\<close>: the allocation of leave days per type that the card assumes
  (\<open>vacationAllocation = 25\<close>, \<open>sickLeaveAllocation = 10\<close>, \<open>specialPermitAllocation = 5\<close>).
\<close>

datatype leave_kind = Vacation | SickLeave | SpecialPermit

fun standard_allocation :: "leave_kind \<Rightarrow> int" where
  "standard_allocation Vacation = 25"
| "standard_allocation SickLeave = 10"
| "standard_allocation SpecialPermit = 5"

subsection \<open>The workflow behind the API\<close>

text \<open>
  The pages only post to \<open>/leave-requests/{id}/action\<close>; the workflow and the balance
  behind it are not part of the sources. This subsection models them from sections 3,
  4.2 and 4.3 of the specification.
\<close>

text \<open>
  Modelled from the spec: the statuses of a \<open>LeaveRequest\<close> (section 3); the backend
  type is not in the sources.
\<close>

datatype leave_status = Pending | Approved | Rejected | Canceled

text \<open>The status strings of the API, as \<open>getStatusChip\<close> reads them.\<close>

fun status_string :: "leave_status \<Rightarrow> string" where
  "status_string Pending = ''pending''"
| "status_string Approved = ''approved''"
| "status_string Rejected = ''rejected''"
| "status_string Canceled = ''canceled''"

text \<open>
  Modelled from the spec: the \<open>LeaveRequest\<close> entity of section 3, whose store is not
  in the sources: identifier, employee id, type, inclusive date-only start and end,
  status and reason; the actions of section 4.2 and the actor (id and role) that the
  identity collaborator supplies.
\<close>

record leave_request =
  request_id :: nat
  requester :: nat
  kind :: leave_kind
  first_day :: daynum
  last_day :: daynum
  status :: leave_status
  request_reason :: "string option"

datatype leave_action = Approve | Reject | Cancel

record actor =
  actor_id :: nat
  actor_role :: role

text \<open>The Gregorian calendar year of a day number (days since 1970-01-01).\<close>

definition year_of_day :: "daynum \<Rightarrow> int" where
  "year_of_day z0 =
     (let z = z0 + 719468;
          era = z div 146097;
          doe = z mod 146097;
          yoe = (doe - doe div 1460 + doe div 36524 - doe div 146096) div 365;
          doy = doe - (365 * yoe + yoe div 4 - yoe div 100);
          mp = (5 * doy + 2) div 153;
          m = (if mp < 10 then mp + 3 else mp - 9)
      in yoe + era * 400 + (if m \<le> 2 then 1 else 0))"

text \<open>
  Modelled from the spec: the length of a request in whole days, inclusive of both
  endpoints, and whether its range intersects a year (section 4.3); the backend
  computation is not in the sources.
\<close>

definition request_days :: "leave_request \<Rightarrow> int" where
  "request_days r = last_day r - first_day r + 1"

definition intersects_year :: "leave_request \<Rightarrow> int \<Rightarrow> bool" where
  "intersects_year r y = (year_of_day (first_day r) \<le> y \<and> y \<le> year_of_day (last_day r))"

text \<open>
  Modelled from the spec: \<open>getBalance(employeeId, leaveType, year)\<close>, which is not in
  the sources. \<open>used\<close> is the sum, in whole days inclusive of both endpoints, of all
  approved requests of the type for the employee whose range intersects the year;
  pending requests are reported separately as \<open>reserved\<close>; \<open>allocated\<close> comes from the
  policy.
\<close>

record balance =
  allocated :: int
  used :: int
  remaining :: int
  reserved :: int

definition days_with_status ::
  "leave_request list \<Rightarrow> leave_status \<Rightarrow> nat \<Rightarrow> leave_kind \<Rightarrow> int \<Rightarrow> int" where
  "days_with_status requests st emp k y =
     sum_list (map request_days
       (filter (\<lambda>r. requester r = emp \<and> kind r = k \<and> status r = st \<and> intersects_year r y)
          requests))"

definition getBalance ::
  "(leave_kind \<Rightarrow> int) \<Rightarrow> leave_request list \<Rightarrow> nat \<Rightarrow> leave_kind \<Rightarrow> int \<Rightarrow> balance" where
  "getBalance allocation requests emp k y =
     \<lparr>allocated = allocation k,
      used = days_with_status requests Approved emp k y,
      remaining = allocation k - days_with_status requests Approved emp k y,
      reserved = days_with_status requests Pending emp k y\<rparr>"

text \<open>
  Modelled from the spec: the transition table of section 4.2, which is not in the
  sources. No transition is valid from \<open>approved\<close>, \<open>rejected\<close> or \<open>canceled\<close>:
  attempting one fails with \<open>ConflictError\<close>. From \<open>pending\<close>: approval is an admin action
  that calls \<open>getBalance\<close>, for the type of the request and every year that its range
  intersects, and fails with \<open>ValidationError\<close> if approving would make
  \<open>used > allocated\<close> in one of them; rejection is an admin action; cancellation is an
  action of the owner.
\<close>

definition request_years :: "leave_request \<Rightarrow> int list" where
  "request_years r = [year_of_day (first_day r) .. year_of_day (last_day r)]"

definition over_allocated ::
  "(leave_kind \<Rightarrow> int) \<Rightarrow> leave_request list \<Rightarrow> leave_request \<Rightarrow> int \<Rightarrow> bool" where
  "over_allocated allocation requests r y =
     (let b = getBalance allocation requests (requester r) (kind r) y
      in used b + request_days r > allocated b)"

definition transition ::
  "(leave_kind \<Rightarrow> int) \<Rightarrow> leave_request list \<Rightarrow> leave_request \<Rightarrow> leave_action \<Rightarrow> actor \<Rightarrow>
   error + leave_request" where
  "transition allocation requests r action who =
     (if status r \<noteq> Pending then Inl ConflictError
      else case action of
        Approve \<Rightarrow>
          if actor_role who \<noteq> Admin then Inl PermissionError
          else if filter (over_allocated allocation requests r) (request_years r) \<noteq> []
          then Inl ValidationError
          else Inr (r\<lparr>status := Approved\<rparr>)
      | Reject \<Rightarrow>
          if actor_role who \<noteq> Admin then Inl PermissionError
          else Inr (r\<lparr>status := Rejected\<rparr>)
      | Cancel \<Rightarrow>
          if actor_id who \<noteq> requester r then Inl PermissionError
          else Inr (r\<lparr>status := Canceled\<rparr>))"

text \<open>
  Modelled from the spec: the lookup of a stored request by its identifier; the store
  is not in the sources.
\<close>

definition find_request :: "leave_request list \<Rightarrow> nat \<Rightarrow> leave_request option" where
  "find_request requests i = find (\<lambda>r. request_id r = i) requests"

text \<open>
  Modelled from the spec: \<open>transitionLeaveRequest(id, action, actorId)\<close>, which is not
  in the sources. An unknown id fails with \<open>NotFoundError\<close>; on success the stored
  request is replaced.
\<close>

definition transitionLeaveRequest ::
  "(leave_kind \<Rightarrow> int) \<Rightarrow> leave_request list \<Rightarrow> nat \<Rightarrow> leave_action \<Rightarrow> actor \<Rightarrow>
   error + leave_request list" where
  "transitionLeaveRequest allocation requests i action who =
     (case find_request requests i of
        None \<Rightarrow> Inl NotFoundError
      | Some r \<Rightarrow>
         (case transition allocation requests r action who of
            Inl e \<Rightarrow> Inl e
          | Inr r' \<Rightarrow> Inr (map (\<lambda>x. if request_id x = i then r' else x) requests)))"

text \<open>
  Modelled from the spec: the stored requests after an attempted transition, the store
  not being in the sources. A failed attempt is never partially applied (section 7); a
  history is a list of attempts.
\<close>

definition attempt ::
  "(leave_kind \<Rightarrow> int) \<Rightarrow> leave_request list \<Rightarrow> nat \<times> leave_action \<times> actor \<Rightarrow>
   leave_request list" where
  "attempt allocation requests a =
     (case a of (i, action, who) \<Rightarrow>
        (case transitionLeaveRequest allocation requests i action who of
           Inl e \<Rightarrow> requests
         | Inr requests' \<Rightarrow> requests'))"

definition attempts ::
  "(leave_kind \<Rightarrow> int) \<Rightarrow> leave_request list \<Rightarrow> (nat \<times> leave_action \<times> actor) list \<Rightarrow>
   leave_request list" where
  "attempts allocation requests as = foldl (attempt allocation) requests as"

section \<open>Properties of the leave duration\<close>

lemma day_of_parseISO_date: "day_of (parseISO_date d) = d"
  by (simp add: day_of_def parseISO_date_def MS_PER_DAY_def)

lemma differenceInCalendarDays_dates:
  "differenceInCalendarDays (parseISO_date e) (parseISO_date s) = e - s"
  by (simp add: differenceInCalendarDays_def day_of_parseISO_date)

lemma differenceInDays_dates:
  "differenceInDays (parseISO_date e) (parseISO_date s) = e - s"
proof -
  have "parseISO_date e - parseISO_date s = (e - s) * MS_PER_DAY"
    by (simp add: parseISO_date_def left_diff_distrib)
  moreover have "sgn MS_PER_DAY = 1"
    by (simp add: MS_PER_DAY_def)
  ultimately have sg: "compareLocalAsc (parseISO_date e) (parseISO_date s) = sgn (e - s)"
    by (simp add: compareLocalAsc_def sgn_mult)
  have "sgn (e - s) * \<bar>e - s\<bar> = e - s"
    by (rule mult_sgn_abs)
  then have mv: "parseISO_date e - sgn (e - s) * \<bar>e - s\<bar> * MS_PER_DAY = parseISO_date s"
    by (simp add: parseISO_date_def left_diff_distrib)
  have same: "compareLocalAsc (parseISO_date s) (parseISO_date s) = 0"
    by (simp add: compareLocalAsc_def)
  have unf: "differenceInDays (parseISO_date e) (parseISO_date s) =
      sgn (e - s) * (\<bar>e - s\<bar> - (if (0::int) = - sgn (e - s) then 1 else 0))"
    unfolding differenceInDays_def Let_def differenceInCalendarDays_dates sg mv same ..
  show ?thesis
  proof (cases "e = s")
    case True
    then show ?thesis unfolding unf by simp
  next
    case False
    then have "sgn (e - s) \<noteq> 0" by (simp add: sgn_if)
    then have "sgn (e - s) * (\<bar>e - s\<bar> - (if (0::int) = - sgn (e - s) then 1 else 0))
        = sgn (e - s) * \<bar>e - s\<bar>" by simp
    then show ?thesis unfolding unf by (simp only: mult_sgn_abs)
  qed
qed

text \<open>
  Away from midnight the two differences are not the same: from 12:00 on day 0 to 10:00
  on day 1 there is one calendar day and no full day.
\<close>

lemma differenceInDays_counts_full_days:
  "differenceInDays 122400000 43200000 = 0 \<and>
   differenceInCalendarDays 122400000 43200000 = 1"
  by (simp add: differenceInDays_def differenceInCalendarDays_def compareLocalAsc_def
      day_of_def MS_PER_DAY_def Let_def)

text \<open>
  Claim C4. For a leave request with date-only start \<open>s\<close> and end \<open>e\<close>, \<open>s \<le> e\<close>,
  both duration computations count the days inclusive of both endpoints: the result is
  the calendar-day difference plus one, and a request with \<open>s = e\<close> counts as one day.
\<close>

theorem leave_duration_inclusive:
  "s \<le> e \<Longrightarrow>
   calculateDuration s e = (e - s) + 1 \<and>
   calculateDays (DValid (parseISO_date s)) (DValid (parseISO_date e)) = Some ((e - s) + 1) \<and>
   calculateDuration s s = 1 \<and>
   calculateDays (DValid (parseISO_date s)) (DValid (parseISO_date s)) = Some 1"
  by (simp add: calculateDuration_def Let_def differenceInDays_dates
      differenceInCalendarDays_dates)

theorem leave_duration_inclusive_witness:
  "(19800::int) \<le> 19804 \<and> calculateDuration 19800 19804 = 5 \<and>
   calculateDays (DValid (parseISO_date 19800)) (DValid (parseISO_date 19804)) = Some 5 \<and>
   calculateDuration 19800 19800 = 1"
  using leave_duration_inclusive [of 19800 19804] by simp

text \<open>
  Claim C10. For date-only start and end values with start \<open>\<le>\<close> end, the page's
  \<open>calculateDays\<close> (calendar-day difference plus one) and the table's
  \<open>calculateDuration\<close> (full-day difference plus one) return the same number of days.
\<close>

theorem leave_durations_agree:
  "s \<le> e \<Longrightarrow>
   calculateDays (DValid (parseISO_date s)) (DValid (parseISO_date e))
     = Some (calculateDuration s e)"
  by (simp add: calculateDuration_def Let_def differenceInDays_dates
      differenceInCalendarDays_dates)

theorem leave_durations_agree_witness:
  "(19800::int) \<le> 19811 \<and>
   calculateDays (DValid (parseISO_date 19800)) (DValid (parseISO_date 19811))
     = Some (calculateDuration 19800 19811) \<and>
   calculateDuration 19800 19811 = 12"
proof -
  have "calculateDuration 19800 19811 = 12"
    by (simp add: calculateDuration_def Let_def differenceInDays_def compareLocalAsc_def
        differenceInCalendarDays_def day_of_def parseISO_date_def MS_PER_DAY_def)
  then show ?thesis
    using leave_durations_agree [of 19800 19811] by simp
qed

section \<open>Properties of the leave request form\<close>








section \<open>Properties of the hours format\<close>

text \<open>
  Claim C9 says that for a non-negative hours value the minutes component stays within
  0..59. The code renders 60 minutes at \<open>h = 255/128 = 1.9921875\<close>: the fraction times 60
  is 59.53125, which \<open>Math.round\<close> takes to 60, and no hour is carried.
\<close>

theorem formatHours_renders_sixty_minutes:
  "formatHours (255 / 128) = ''1h 60m'' \<and> formatHours_parts (255 / 128) = (1, 60)"
  by (simp add: formatHours_def formatHours_parts_def Math_round_def Let_def show_int_def
      show_nat.simps digit_char_def)

lemma formatHours_minutes_bounds:
  "0 \<le> h \<Longrightarrow> 0 \<le> snd (formatHours_parts h) \<and> snd (formatHours_parts h) \<le> 60"
  by (simp add: formatHours_parts_def Math_round_def Let_def) linarith

section \<open>Properties of the manual entry form\<close>

lemma getHours_range: "0 \<le> getHours t \<and> getHours t < 24"
  by (simp add: getHours_def MS_PER_DAY_def pos_imp_zdiv_nonneg_iff)

lemma getMinutes_range: "0 \<le> getMinutes t \<and> getMinutes t < 60"
  by (simp add: getMinutes_def pos_imp_zdiv_nonneg_iff)

lemma combineDateTime_le_iff:
  "combineDateTime d et \<le> combineDateTime d st \<longleftrightarrow>
   getHours et * 60 + getMinutes et \<le> getHours st * 60 + getMinutes st"
  by (simp add: combineDateTime_def setHours_def) arith

lemma combine_Inr_not_null: "combine d tm = Inr x \<Longrightarrow> tm \<noteq> DNull \<and> x \<noteq> DNull"
  by (auto simp: combine_def TimeClip_def split: date_value.splits if_splits)

lemma handleSubmit_entry_I3:
  assumes "handleSubmit_entry f ed = Inr call"
  shows "I3 (entry_call_data call)"
proof -
  from assms obtain cst where s: "combine (date f) (startTime f) = Inr cst"
    by (auto simp: handleSubmit_entry_def split: sum.splits)
  with assms obtain cet
    where e: "(if endTime f = DNull then Inr DNull else combine (date f) (endTime f)) = Inr cet"
    by (auto simp: handleSubmit_entry_def split: sum.splits)
  show ?thesis
    using assms s e
    by (cases cst; cases cet)
       (auto simp: handleSubmit_entry_def I3_def js_ge_def Let_def
         split: if_splits option.splits sum.splits)
qed

lemma handleSubmit_entry_refuses:
  assumes "combine (date f) (startTime f) = Inr (DValid cs)"
    and "combine (date f) (endTime f) = Inr (DValid ce)"
    and "ce \<le> cs"
  shows "handleSubmit_entry f ed = Inl ValidationError"
proof -
  from assms(2) have "endTime f \<noteq> DNull" by (auto dest: combine_Inr_not_null)
  with assms show ?thesis
    by (simp add: handleSubmit_entry_def js_ge_def)
qed

lemma handleSubmit_entry_accepts:
  assumes "combine (date f) (startTime f) = Inr (DValid cs)"
    and "combine (date f) (endTime f) = Inr (DValid ce)"
    and "cs < ce"
  shows "handleSubmit_entry f None
   = Inr (CreateTimeEntry
       \<lparr>start_time = cs, end_time = Some ce,
        description = Some (formDescription f), is_manual_entry = isManualEntry f\<rparr>)"
proof -
  from assms(2) have "endTime f \<noteq> DNull" by (auto dest: combine_Inr_not_null)
  with assms show ?thesis
    by (simp add: handleSubmit_entry_def js_ge_def)
qed

lemma I3_update:
  assumes "\<forall>x\<in>set L. I3 x" and "I3 iv'"
  shows "\<forall>x\<in>set (map (\<lambda>x. if entry_id x = i then iv' else x) L). I3 x"
  using assms by auto

lemma find_interval_in: "find_interval L i = Some iv \<Longrightarrow> iv \<in> set L"
  by (auto simp: find_interval_def find_Some_iff)

lemma I3_apply_op:
  assumes inv: "\<forall>x\<in>set L. I3 x"
  shows "\<forall>x\<in>set (apply_op L op). I3 x"
proof (cases op)
  case (Start emp descr now)
  with inv show ?thesis
    by (auto simp: committed_def startInterval_def Let_def I3_def)
next
  case (Stop i t)
  show ?thesis
  proof (cases "stopInterval L i t")
    case (Inl a)
    with Stop inv show ?thesis by (simp add: committed_def)
  next
    case (Inr b)
    then obtain iv where f: "find_interval L i = Some iv"
      and iv: "\<not> t \<le> start_time iv"
      and b: "b = (iv\<lparr>end_time := Some t\<rparr>,
                 map (\<lambda>x. if entry_id x = i then iv\<lparr>end_time := Some t\<rparr> else x) L)"
      by (auto simp: stopInterval_def Let_def split: option.splits if_splits)
    from iv have "I3 (iv\<lparr>end_time := Some t\<rparr>)" by (simp add: I3_def)
    with inv have "\<forall>x\<in>set (map (\<lambda>x. if entry_id x = i then iv\<lparr>end_time := Some t\<rparr> else x) L). I3 x"
      by (rule I3_update)
    with Stop Inr b show ?thesis by (simp add: committed_def)
  qed
next
  case (CreateManual emp s e descr)
  with inv show ?thesis
    by (auto simp: committed_def createManualInterval_def Let_def I3_def)
next
  case (Edit i p)
  show ?thesis
  proof (cases "editInterval L i p")
    case (Inl a)
    with Edit inv show ?thesis by (simp add: committed_def)
  next
    case (Inr b)
    let ?upd = "\<lambda>iv. iv\<lparr>start_time := patch_start p, end_time := patch_end p,
                           description := patch_description p\<rparr>"
    from Inr obtain iv where f: "find_interval L i = Some iv"
      and ok: "before_end (patch_start p) (patch_end p)"
      and b: "b = (?upd iv, map (\<lambda>x. if entry_id x = i then ?upd iv else x) L)"
      by (auto simp: editInterval_def Let_def split: option.splits if_splits)
    from ok have "I3 (?upd iv)"
      by (simp add: I3_def before_end_def split: option.splits)
    with inv have "\<forall>x\<in>set (map (\<lambda>x. if entry_id x = i then ?upd iv else x) L). I3 x"
      by (rule I3_update)
    with Edit Inr b show ?thesis by (simp add: committed_def)
  qed
next
  case (Delete i r rr)
  with inv show ?thesis
    by (auto simp: deleteInterval_def split: option.splits)
qed

lemma ledger_I3:
  assumes "\<forall>x\<in>set L. I3 x"
  shows "\<forall>x\<in>set (foldl apply_op L ops). I3 x"
  using assms
proof (induction ops arbitrary: L)
  case Nil
  then show ?case by simp
next
  case (Cons a ops)
  from Cons.prems have "\<forall>x\<in>set (apply_op L a). I3 x" by (rule I3_apply_op)
  then show ?case unfolding foldl_Cons by (rule Cons.IH)
qed

lemma run_ledger_I3: "iv \<in> set (run_ledger ops) \<Longrightarrow> I3 iv"
  using ledger_I3 [of "[]" ops] by (simp add: run_ledger_def)

lemma createManualInterval_refuses:
  "e \<le> s \<Longrightarrow> createManualInterval L emp s e descr = Inl ValidationError"
  by (simp add: createManualInterval_def)

text \<open>
  Claim C2. Submitting the manual entry form with an end that, combined with the form's
  date, is not after the combined start fails with a validation error and issues no
  create or update call; with the combined end after the combined start the entry is
  created with exactly these two times; every call the form issues carries an end that
  is strictly after its start, or no end (I3). In the ledger, \<open>createManualInterval\<close>
  with \<open>end <= start\<close> fails with \<open>ValidationError\<close> and creates nothing, and every
  interval stored after any history of ledger operations satisfies I3.
\<close>

theorem manual_entry_end_after_start:
  "(combine (date f) (startTime f) = Inr (DValid cs) \<and>
    combine (date f) (endTime f) = Inr (DValid ce) \<longrightarrow>
      (ce \<le> cs \<longrightarrow> handleSubmit_entry f ed = Inl ValidationError) \<and>
      (cs < ce \<longrightarrow>
         handleSubmit_entry f None
           = Inr (CreateTimeEntry
               \<lparr>start_time = cs, end_time = Some ce,
                description = Some (formDescription f),
                is_manual_entry = isManualEntry f\<rparr>))) \<and>
   (handleSubmit_entry f ed = Inr call \<longrightarrow> I3 (entry_call_data call)) \<and>
   (e \<le> s \<longrightarrow>
      createManualInterval L emp s e descr = Inl ValidationError \<and>
      apply_op L (CreateManual emp s e descr) = L) \<and>
   (iv \<in> set (run_ledger ops) \<longrightarrow> I3 iv)"
  using handleSubmit_entry_refuses [of f cs ce ed] handleSubmit_entry_accepts [of f cs ce]
    handleSubmit_entry_I3 [of f ed call] createManualInterval_refuses [of e s L emp descr]
    run_ledger_I3 [of iv ops]
  by (auto simp: committed_def)

text \<open>
  At the last day of the range of \<open>Date\<close> the combined values do not exist: \<open>setHours\<close>
  leaves invalid dates, the comparison is false and \<open>toISOString\<close> throws, so the form
  fails with the generic alert and still issues no call.
\<close>

lemma handleSubmit_entry_out_of_range:
  "handleSubmit_entry
     \<lparr>date = DValid 8640000000000000, startTime = DValid 1710756000000,
      endTime = DValid 1710752400000, formDescription = ''review'', isManualEntry = True\<rparr>
     None = Inl JSRangeError"
  by (simp add: handleSubmit_entry_def combine_def TimeClip_def MAX_TIME_def js_ge_def
      combineDateTime_def setHours_def getHours_def getMinutes_def MS_PER_DAY_def)

theorem manual_entry_end_after_start_witness:
  "handleSubmit_entry
     \<lparr>date = DValid 1710720000000, startTime = DValid 1710842400000,
      endTime = DValid 1710925200000, formDescription = ''review'', isManualEntry = True\<rparr>
     None = Inl ValidationError \<and>
   handleSubmit_entry
     \<lparr>date = DValid 1710720000000, startTime = DValid 1710925200000,
      endTime = DValid 1710842400000, formDescription = ''review'', isManualEntry = True\<rparr>
     None
     = Inr (CreateTimeEntry
         \<lparr>start_time = 1710752400000, end_time = Some 1710756000000,
          description = Some ''review'', is_manual_entry = True\<rparr>) \<and>
   I3 \<lparr>start_time = 1710752400000, end_time = Some 1710756000000,
       description = Some ''review'', is_manual_entry = True\<rparr> \<and>
   createManualInterval [] 7 2000 1000 None = Inl ValidationError \<and>
   run_ledger [CreateManual 7 2000 1000 None, Start 7 None 1000, Stop 1 500, Stop 1 1500]
     = [\<lparr>start_time = 1000, end_time = Some 1500, description = None,
         is_manual_entry = False, entry_id = 1, is_approved = False, employee = 7\<rparr>] \<and>
   I3 \<lparr>start_time = 1000, end_time = Some 1500, description = None,
       is_manual_entry = False, entry_id = 1, is_approved = False, employee = 7\<rparr>"
proof -
  let ?d = "1710720000000 :: int"
  let ?nine = "1710752400000 :: int"
  let ?ten = "1710756000000 :: int"
  let ?ten1 = "1710842400000 :: int"
  let ?nine2 = "1710925200000 :: int"
  let ?ok = "\<lparr>date = DValid ?d, startTime = DValid ?nine2, endTime = DValid ?ten1,
      formDescription = ''review'', isManualEntry = True\<rparr>"
  let ?bad = "\<lparr>date = DValid ?d, startTime = DValid ?ten1, endTime = DValid ?nine2,
      formDescription = ''review'', isManualEntry = True\<rparr>"
  let ?body = "\<lparr>start_time = ?nine, end_time = Some ?ten,
      description = Some ''review'', is_manual_entry = True\<rparr>"
  let ?iv = "\<lparr>start_time = 1000, end_time = Some 1500, description = None,
      is_manual_entry = False, entry_id = 1, is_approved = False, employee = 7\<rparr> :: interval"
  let ?ops = "[CreateManual 7 2000 1000 None, Start 7 None 1000, Stop 1 500, Stop 1 1500]"
  have nine: "combine (DValid ?d) (DValid ?nine2) = Inr (DValid ?nine)"
    by (simp add: combine_def TimeClip_def MAX_TIME_def combineDateTime_def setHours_def
        getHours_def getMinutes_def MS_PER_DAY_def)
  have ten: "combine (DValid ?d) (DValid ?ten1) = Inr (DValid ?ten)"
    by (simp add: combine_def TimeClip_def MAX_TIME_def combineDateTime_def setHours_def
        getHours_def getMinutes_def MS_PER_DAY_def)
  have refused: "handleSubmit_entry ?bad None = Inl ValidationError"
    using manual_entry_end_after_start
      [where f = ?bad and cs = ?ten and ce = ?nine and ed = None] nine ten
    by simp
  have sent: "handleSubmit_entry ?ok None = Inr (CreateTimeEntry ?body)"
    using manual_entry_end_after_start
      [where f = ?ok and cs = ?nine and ce = ?ten and ed = None] nine ten
    by simp
  have body: "I3 (entry_call_data (CreateTimeEntry ?body))"
    using manual_entry_end_after_start
      [where f = ?ok and ed = None and call = "CreateTimeEntry ?body"] sent
    by blast
  have manual: "createManualInterval [] 7 2000 1000 None = Inl ValidationError"
    using manual_entry_end_after_start [where s = 2000 and e = 1000 and L = "[]" and emp = 7
        and descr = None]
    by simp
  have run: "run_ledger ?ops = [?iv]"
    by (simp add: run_ledger_def committed_def createManualInterval_def startInterval_def
        stopInterval_def find_interval_def open_intervals_def fresh_id_def Let_def)
  have stored: "I3 ?iv"
    using manual_entry_end_after_start [where iv = ?iv and ops = ?ops] run
    by simp
  from refused sent body manual run stored show ?thesis by simp
qed

section \<open>Properties of the daily totals\<close>

lemma foldl_group_step:
  "foldl group_step acc entries d =
   (let new = filter (\<lambda>e. format_date (start_time e) = d) entries
    in if new = [] then acc d
       else Some ((case acc d of None \<Rightarrow> [] | Some es \<Rightarrow> es) @ new))"
proof (induction entries arbitrary: acc)
  case Nil
  then show ?case by simp
next
  case (Cons a entries)
  have "foldl group_step acc (a # entries) d = foldl group_step (group_step acc a) entries d"
    by simp
  also have "\<dots> = (let new = filter (\<lambda>e. format_date (start_time e) = d) entries
    in if new = [] then group_step acc a d
       else Some ((case group_step acc a d of None \<Rightarrow> [] | Some es \<Rightarrow> es) @ new))"
    by (rule Cons.IH)
  also have "\<dots> = (let new = filter (\<lambda>e. format_date (start_time e) = d) (a # entries)
    in if new = [] then acc d
       else Some ((case acc d of None \<Rightarrow> [] | Some es \<Rightarrow> es) @ new))"
    by (simp add: group_step_def Let_def split: option.splits)
  finally show ?case .
qed

lemma groupedEntries_eq:
  "groupedEntries entries d =
   (let g = filter (\<lambda>e. format_date (start_time e) = d) entries
    in if g = [] then None else Some g)"
  by (simp add: groupedEntries_def foldl_group_step Let_def)

lemma foldl_totalSeconds:
  "foldl (\<lambda>totalSeconds entry.
            case end_time entry of
              Some e \<Rightarrow> totalSeconds + differenceInSeconds e (start_time entry)
            | None \<Rightarrow> totalSeconds) acc entries
   = acc + sum_list (map entry_seconds entries)"
  by (induction entries arbitrary: acc) (auto simp: entry_seconds_def split: option.splits)

lemma totalSeconds_of_eq: "totalSeconds_of entries = sum_list (map entry_seconds entries)"
  by (simp add: totalSeconds_of_def foldl_totalSeconds)

lemma sum_closed_only:
  "sum_list (map entry_seconds (filter (\<lambda>e. P e \<and> end_time e \<noteq> None) g))
   = sum_list (map entry_seconds (filter P g))"
  by (induction g) (auto simp: entry_seconds_def)

lemma dailyTotalShown_eq:
  "dailyTotalShown entries d =
     (if filter (\<lambda>e. format_date (start_time e) = d) entries = [] then None
      else Some (calculateDailyTotal (filter (\<lambda>e. format_date (start_time e) = d) entries)))"
  by (simp add: dailyTotalShown_def groupedEntries_eq Let_def)

lemma calculateDailyTotal_eq:
  "calculateDailyTotal g =
     show_int (sum_list (map entry_seconds g) div 3600) @ ''h '' @
     show_int (js_rem (sum_list (map entry_seconds g)) 3600 div 60) @ ''m''"
  by (simp add: calculateDailyTotal_def totalSeconds_of_eq Let_def)

text \<open>
  Claim C3, as stated, fails. One entry from 23:00 on day 19800 to 01:00 on day 19801:
  the table shows two hours for day 19800 and nothing for day 19801, while the clipped
  portions are one hour on each of the two days.
\<close>

theorem daily_total_clipping_counterexample:
  "dailyTotalShown
     [\<lparr>start_time = 1710802800000, end_time = Some 1710810000000, description = None,
       is_manual_entry = False, entry_id = 1, is_approved = False\<rparr>] 19800
     = Some ''2h 0m'' \<and>
   dailyTotals_clipped
     [\<lparr>start_time = 1710802800000, end_time = Some 1710810000000, description = None,
       is_manual_entry = False, entry_id = 1, is_approved = False\<rparr>] 19800
     = 3600 \<and>
   dailyTotalShown
     [\<lparr>start_time = 1710802800000, end_time = Some 1710810000000, description = None,
       is_manual_entry = False, entry_id = 1, is_approved = False\<rparr>] 19801
     = None \<and>
   dailyTotals_clipped
     [\<lparr>start_time = 1710802800000, end_time = Some 1710810000000, description = None,
       is_manual_entry = False, entry_id = 1, is_approved = False\<rparr>] 19801
     = 3600"
  by (simp add: dailyTotalShown_def groupedEntries_def group_step_def calculateDailyTotal_def
      totalSeconds_of_def dailyTotals_clipped_def clipped_seconds_def differenceInSeconds_def
      trunc_div_def js_rem_def Let_def format_date_def day_of_def MS_PER_DAY_def
      show_int_def show_nat.simps digit_char_def)

text \<open>
  Claim C3, amended. For every list of entries and every calendar day \<open>d\<close>, the table
  shows a total for \<open>d\<close> exactly when some entry starts on \<open>d\<close>, and the total shown is the
  sum of the whole durations (end minus start, in whole seconds) of the closed entries
  whose start falls on \<open>d\<close>, rendered as hours and minutes: an interval that crosses
  midnight is counted entirely on the day of its start.
\<close>

theorem daily_total_by_start_day:
  "dailyTotalShown entries d =
     (let total = sum_list (map entry_seconds
                    (filter (\<lambda>e. format_date (start_time e) = d \<and> end_time e \<noteq> None) entries))
      in if filter (\<lambda>e. format_date (start_time e) = d) entries = [] then None
         else Some (show_int (total div 3600) @ ''h '' @
                    show_int (js_rem total 3600 div 60) @ ''m''))"
  by (simp only: dailyTotalShown_eq calculateDailyTotal_eq sum_closed_only Let_def)

theorem daily_total_by_start_day_witness:
  "dailyTotalShown
     [\<lparr>start_time = 1710752400000, end_time = Some 1710757800000, description = None,
       is_manual_entry = False, entry_id = 11, is_approved = False\<rparr>,
      \<lparr>start_time = 1710802800000, end_time = Some 1710810000000, description = None,
       is_manual_entry = False, entry_id = 12, is_approved = False\<rparr>,
      \<lparr>start_time = 1710810000000, end_time = None, description = None,
       is_manual_entry = False, entry_id = 13, is_approved = False\<rparr>] 19800
     = Some ''3h 30m''"
  using daily_total_by_start_day
    [of "[\<lparr>start_time = 1710752400000, end_time = Some 1710757800000, description = None,
       is_manual_entry = False, entry_id = 11, is_approved = False\<rparr>,
      \<lparr>start_time = 1710802800000, end_time = Some 1710810000000, description = None,
       is_manual_entry = False, entry_id = 12, is_approved = False\<rparr>,
      \<lparr>start_time = 1710810000000, end_time = None, description = None,
       is_manual_entry = False, entry_id = 13, is_approved = False\<rparr>]" 19800]
  by (simp add: entry_seconds_def
      differenceInSeconds_def trunc_div_def js_rem_def Let_def format_date_def day_of_def
      MS_PER_DAY_def show_int_def show_nat.simps digit_char_def)

section \<open>Properties of live tracking\<close>

text \<open>
  Claim C8. Starting live tracking issues one create call whose body has the current
  time as start, no end time and the manual flag false, whichever of the three start
  buttons is used and whatever the server is; when the call succeeds the component
  records the created entry as the active one.
\<close>

theorem live_start_creates_open_entry:
  "snd (startTracking createTimeEntry now (st, srv))
     = snd (createTimeEntry
         \<lparr>start_time = now, end_time = None,
          description = trim_or_null (trackerDescription st), is_manual_entry = False\<rparr> srv) \<and>
   snd (card_startTracking createTimeEntry now (cst, srv))
     = snd (createTimeEntry
         \<lparr>start_time = now, end_time = None, description = None,
          is_manual_entry = False\<rparr> srv) \<and>
   snd (handleTrackingToggle createTimeEntry now (False, srv))
     = snd (createTimeEntry
         \<lparr>start_time = now, end_time = None, description = None,
          is_manual_entry = False\<rparr> srv) \<and>
   (createTimeEntry
         \<lparr>start_time = now, end_time = None,
          description = trim_or_null (trackerDescription st), is_manual_entry = False\<rparr> srv
      = (Inr result, srv') \<longrightarrow>
      startTracking createTimeEntry now (st, srv)
        = (st\<lparr>activeEntryId := Some (entry_id result), isTracking := True,
               trackerStartTime := Some now, elapsedTime := 0, timerRunning := True\<rparr>, srv')) \<and>
   (createTimeEntry
         \<lparr>start_time = now, end_time = None, description = None,
          is_manual_entry = False\<rparr> srv
      = (Inr result, srv') \<longrightarrow>
      card_startTracking createTimeEntry now (cst, srv)
        = (cst\<lparr>cardActiveEntryId := Some (entry_id result), cardIsTracking := True,
               cardStartTime := Some now, cardElapsedTime := 0, cardTimerRunning := True\<rparr>,
           srv') \<and>
      handleTrackingToggle createTimeEntry now (False, srv) = (True, srv'))"
  by (auto simp: startTracking_def card_startTracking_def handleTrackingToggle_def
      startTracking_body_def card_startTracking_body_def topBar_start_body_def
      split: prod.splits sum.splits)

text \<open>
  Against the ledger, on behalf of employee 7 at time 1000: the interval created is open,
  not manual, and starts at 1000.
\<close>

theorem live_start_creates_open_entry_witness:
  "startTracking (live_create 7) 1000
     (\<lparr>isTracking = False, elapsedTime = 5, trackerDescription = '' docs '',
       activeEntryId = None, trackerStartTime = None, timerRunning = False\<rparr>, [])
   = (\<lparr>isTracking = True, elapsedTime = 0, trackerDescription = '' docs '',
       activeEntryId = Some 1, trackerStartTime = Some 1000, timerRunning = True\<rparr>,
      [\<lparr>start_time = 1000, end_time = None, description = Some ''docs'',
        is_manual_entry = False, entry_id = 1, is_approved = False, employee = 7\<rparr>])"
proof -
  let ?st = "\<lparr>isTracking = False, elapsedTime = 5, trackerDescription = '' docs '',
       activeEntryId = None, trackerStartTime = None, timerRunning = False\<rparr>"
  let ?iv = "\<lparr>start_time = 1000, end_time = None, description = Some ''docs'',
        is_manual_entry = False, entry_id = 1, is_approved = False, employee = 7\<rparr> :: interval"
  have tr: "trim_or_null '' docs '' = Some ''docs''"
    by (simp add: trim_or_null_def trim_def is_white_def)
  have "live_create 7
      \<lparr>start_time = 1000, end_time = None,
       description = trim_or_null (trackerDescription ?st), is_manual_entry = False\<rparr> []
    = (Inr (time_entry.truncate ?iv), [?iv])"
    by (simp add: tr live_create_def startInterval_def open_intervals_def fresh_id_def Let_def)
  then show ?thesis
    using live_start_creates_open_entry
      [where createTimeEntry = "live_create 7" and now = 1000 and st = ?st and srv = "[]"
         and result = "time_entry.truncate ?iv" and srv' = "[?iv]"]
    by (simp add: time_entry.truncate_def)
qed

section \<open>Properties of the interval ledger\<close>

lemma find_interval_Some:
  "find_interval L i = Some iv \<Longrightarrow> entry_id iv = i \<and> iv \<in> set L"
  by (auto simp: find_interval_def find_Some_iff)

lemma fresh_id_greater:
  assumes "x \<in> set L"
  shows "entry_id x < fresh_id L"
proof -
  from assms have "entry_id x \<le> Max (set (map entry_id L))"
    by (intro Max_ge) auto
  moreover from assms have "L \<noteq> []" by auto
  ultimately show ?thesis by (simp add: fresh_id_def)
qed

lemma fresh_id_notin: "fresh_id L \<notin> set (map entry_id L)"
  using fresh_id_greater by fastforce

lemma filter_length_mono:
  "(\<And>x. x \<in> set xs \<Longrightarrow> P x \<Longrightarrow> Q x) \<Longrightarrow> length (filter P xs) \<le> length (filter Q xs)"
  by (induction xs) auto

lemma filter_map_length_mono:
  "(\<And>x. x \<in> set xs \<Longrightarrow> P (f x) \<Longrightarrow> Q x) \<Longrightarrow>
   length (filter P (map f xs)) \<le> length (filter Q xs)"
  by (induction xs) auto

lemma distinct_ids_one:
  "distinct (map entry_id L) \<Longrightarrow> length (filter (\<lambda>x. entry_id x = i) L) \<le> 1"
proof (induction L)
  case Nil
  then show ?case by simp
next
  case (Cons a L)
  show ?case
  proof (cases "entry_id a = i")
    case True
    with Cons.prems have "\<forall>x\<in>set L. entry_id x \<noteq> i"
      by (metis distinct.simps(2) imageI list.simps(9) set_map)
    then have "filter (\<lambda>x. entry_id x = i) L = []"
      by (simp add: filter_empty_conv)
    with True show ?thesis by simp
  next
    case False
    with Cons show ?thesis by simp
  qed
qed

lemma map_update_ids:
  "entry_id iv' = i \<Longrightarrow> map entry_id (map (\<lambda>x. if entry_id x = i then iv' else x) L) = map entry_id L"
  by (induction L) auto

lemma distinct_update:
  assumes "distinct (map entry_id L)" and "entry_id iv' = i"
  shows "distinct (map entry_id (map (\<lambda>x. if entry_id x = i then iv' else x) L))"
  using assms by (simp only: map_update_ids)

lemma distinct_apply_op:
  assumes d: "distinct (map entry_id L)"
  shows "distinct (map entry_id (apply_op L op))"
proof (cases op)
  case (Start emp descr now)
  then show ?thesis using fresh_id_notin[of L] d
    by (auto simp: committed_def startInterval_def Let_def)
next
  case (Stop i t)
  show ?thesis
  proof (cases "stopInterval L i t")
    case (Inl a)
    with Stop d show ?thesis by (simp add: committed_def)
  next
    case (Inr b)
    then obtain iv where f: "find_interval L i = Some iv"
      and b: "b = (iv\<lparr>end_time := Some t\<rparr>,
                 map (\<lambda>x. if entry_id x = i then iv\<lparr>end_time := Some t\<rparr> else x) L)"
      by (auto simp: stopInterval_def Let_def split: option.splits if_splits)
    from f have "entry_id (iv\<lparr>end_time := Some t\<rparr>) = i"
      by (simp add: find_interval_Some)
    with d have "distinct (map entry_id
        (map (\<lambda>x. if entry_id x = i then iv\<lparr>end_time := Some t\<rparr> else x) L))"
      by (rule distinct_update)
    moreover have "apply_op L op =
        map (\<lambda>x. if entry_id x = i then iv\<lparr>end_time := Some t\<rparr> else x) L"
      using Stop Inr b by (simp add: committed_def)
    ultimately show ?thesis by (simp only:)
  qed
next
  case (CreateManual emp s e descr)
  then show ?thesis using fresh_id_notin[of L] d
    by (auto simp: committed_def createManualInterval_def Let_def)
next
  case (Edit i p)
  show ?thesis
  proof (cases "editInterval L i p")
    case (Inl a)
    with Edit d show ?thesis by (simp add: committed_def)
  next
    case (Inr b)
    let ?upd = "\<lambda>iv. iv\<lparr>start_time := patch_start p, end_time := patch_end p,
                           description := patch_description p\<rparr>"
    from Inr obtain iv where f: "find_interval L i = Some iv"
      and b: "b = (?upd iv, map (\<lambda>x. if entry_id x = i then ?upd iv else x) L)"
      by (auto simp: editInterval_def Let_def split: option.splits if_splits)
    from f have "entry_id (?upd iv) = i"
      by (simp add: find_interval_Some)
    with d have "distinct (map entry_id
        (map (\<lambda>x. if entry_id x = i then ?upd iv else x) L))"
      by (rule distinct_update)
    moreover have "apply_op L op = map (\<lambda>x. if entry_id x = i then ?upd iv else x) L"
      using Edit Inr b by (simp add: committed_def)
    ultimately show ?thesis by (simp only:)
  qed
next
  case (Delete i r rr)
  then show ?thesis using d
    by (auto simp: deleteInterval_def distinct_map_filter split: option.splits)
qed

lemma open_append_closed:
  "end_time iv \<noteq> None \<Longrightarrow> open_intervals (L @ [iv]) emp = open_intervals L emp"
  by (simp add: open_intervals_def)

lemma open_stop:
  "length (open_intervals (map (\<lambda>x. if entry_id x = i then iv\<lparr>end_time := Some t\<rparr> else x) L) emp)
     \<le> length (open_intervals L emp)"
  unfolding open_intervals_def
  by (rule filter_map_length_mono) (auto split: if_splits)

lemma I1_apply_op:
  assumes d: "distinct (map entry_id L)"
    and one: "\<And>emp. length (open_intervals L emp) \<le> 1"
  shows "length (open_intervals (apply_op L op) emp) \<le> 1"
proof (cases op)
  case (Start e descr now)
  show ?thesis
  proof (cases "open_intervals L e = []")
    case True
    show ?thesis
    proof (cases "emp = e")
      case True
      with \<open>open_intervals L e = []\<close> Start show ?thesis
        by (simp add: committed_def startInterval_def Let_def open_intervals_def)
    next
      case False
      with \<open>open_intervals L e = []\<close> Start one[of emp] show ?thesis
        by (simp add: committed_def startInterval_def Let_def open_intervals_def)
    qed
  next
    case False
    with Start one[of emp] show ?thesis
      by (simp add: committed_def startInterval_def)
  qed
next
  case (Stop i t)
  show ?thesis
  proof (cases "stopInterval L i t")
    case (Inl a)
    with Stop one[of emp] show ?thesis by (simp add: committed_def)
  next
    case (Inr b)
    then obtain iv where "b = (iv\<lparr>end_time := Some t\<rparr>, map (\<lambda>x. if entry_id x = i then iv\<lparr>end_time := Some t\<rparr> else x) L)"
      by (auto simp: stopInterval_def Let_def split: option.splits if_splits)
    with Stop Inr show ?thesis
      using open_stop[where i=i and iv=iv and t=t and L=L and emp=emp] one[of emp] by (simp add: committed_def)
  qed
next
  case (CreateManual e s en descr)
  then show ?thesis using one[of emp]
    by (auto simp: committed_def createManualInterval_def Let_def open_append_closed)
next
  case (Edit i p)
  show ?thesis
  proof (cases "editInterval L i p")
    case (Inl a)
    with Edit one[of emp] show ?thesis by (simp add: committed_def)
  next
    case (Inr b)
    then obtain iv where f: "find_interval L i = Some iv"
      and ov: "overlapping (filter (\<lambda>x. employee x = employee iv \<and> entry_id x \<noteq> i) L)
                    (patch_start p) (patch_end p) = []"
      and b: "b = (iv\<lparr>start_time := patch_start p, end_time := patch_end p,
                           description := patch_description p\<rparr>, 
             map (\<lambda>x. if entry_id x = i then iv\<lparr>start_time := patch_start p, end_time := patch_end p,
                           description := patch_description p\<rparr> else x) L)"
      by (auto simp: editInterval_def Let_def split: option.splits if_splits)
    let ?iv' = "iv\<lparr>start_time := patch_start p, end_time := patch_end p,
                           description := patch_description p\<rparr>"
    let ?L' = "map (\<lambda>x. if entry_id x = i then ?iv' else x) L"
    from f have idiv: "entry_id iv = i" by (simp add: find_interval_Some)
    have L': "apply_op L op = ?L'" using Edit Inr b by (simp add: committed_def)
    show ?thesis
    proof (cases "emp = employee iv \<and> patch_end p = None")
      case True
      have others: "\<forall>x\<in>set L. employee x = employee iv \<and> entry_id x \<noteq> i \<longrightarrow> end_time x \<noteq> None"
      proof (intro ballI impI notI)
        fix x assume x: "x \<in> set L" "employee x = employee iv \<and> entry_id x \<noteq> i" "end_time x = None"
        with True have "x \<in> set (overlapping (filter (\<lambda>x. employee x = employee iv \<and> entry_id x \<noteq> i) L)
                    (patch_start p) (patch_end p))"
          by (simp add: overlapping_def ranges_overlap_def before_end_def)
        with ov show False by simp
      qed
      have "length (open_intervals ?L' emp) \<le> length (filter (\<lambda>x. entry_id x = i) L)"
        unfolding open_intervals_def
        by (rule filter_map_length_mono) (use True others in \<open>auto split: if_splits\<close>)
      also have "\<dots> \<le> 1" using d by (rule distinct_ids_one)
      finally show ?thesis using L' by simp
    next
      case False
      have "length (open_intervals ?L' emp) \<le> length (open_intervals L emp)"
        unfolding open_intervals_def
        by (rule filter_map_length_mono) (use False in \<open>auto split: if_splits\<close>)
      with one[of emp] L' show ?thesis by simp
    qed
  qed
next
  case (Delete i r rr)
  have "length (open_intervals (filter (\<lambda>x. entry_id x \<noteq> i) L) emp) \<le> length (open_intervals L emp)"
    unfolding open_intervals_def filter_filter
    by (rule filter_length_mono) auto
  with Delete one[of emp] show ?thesis
    by (auto simp: deleteInterval_def split: option.splits)
qed

lemma ledger_invariant:
  assumes "distinct (map entry_id L)" and "\<And>emp. length (open_intervals L emp) \<le> 1"
  shows "distinct (map entry_id (foldl apply_op L ops)) \<and>
         (\<forall>emp. length (open_intervals (foldl apply_op L ops) emp) \<le> 1)"
  using assms
proof (induction ops arbitrary: L)
  case Nil
  then show ?case by simp
next
  case (Cons a ops)
  have "distinct (map entry_id (apply_op L a))"
    using Cons.prems(1) by (rule distinct_apply_op)
  moreover have "\<And>emp. length (open_intervals (apply_op L a) emp) \<le> 1"
    using Cons.prems by (rule I1_apply_op)
  ultimately show ?case
    unfolding foldl_Cons by (rule Cons.IH)
qed

lemma run_ledger_I1: "length (open_intervals (run_ledger ops) emp) \<le> 1"
proof -
  have "distinct (map entry_id ([] :: ledger))" by simp
  moreover have "\<And>e. length (open_intervals [] e) \<le> 1"
    by (simp add: open_intervals_def)
  ultimately show ?thesis
    unfolding run_ledger_def using ledger_invariant by blast
qed

lemma second_start_refused:
  assumes "open_intervals L emp \<noteq> []"
  shows "startInterval L emp descr now = Inl ConflictError"
    and "apply_op L (Start emp descr now) = L"
    and "live_create emp body L = (Inl ConflictError, L)"
  using assms by (simp_all add: startInterval_def committed_def live_create_def)

text \<open>
  Claim C1. In every state of the ledger each employee has at most one interval without
  an end (I1). While an open interval exists for an employee, \<open>startInterval\<close> fails with
  \<open>ConflictError\<close> and leaves the ledger as it was; in particular a second start from the
  top bar or from the tracker page creates no second open interval.
\<close>

theorem at_most_one_open_interval:
  "length (open_intervals (run_ledger ops) emp) \<le> 1 \<and>
   (open_intervals L emp \<noteq> [] \<longrightarrow>
      startInterval L emp descr now = Inl ConflictError \<and>
      apply_op L (Start emp descr now) = L \<and>
      handleTrackingToggle (live_create emp) now (False, L) = (False, L) \<and>
      startTracking (live_create emp) now (st, L) = (st, L))"
  using run_ledger_I1 [of ops emp] second_start_refused [of L emp]
  by (simp add: handleTrackingToggle_def startTracking_def)

theorem at_most_one_open_interval_witness:
  "run_ledger [Start 7 None 1000, Start 7 None 2000]
     = [\<lparr>start_time = 1000, end_time = None, description = None, is_manual_entry = False,
         entry_id = 1, is_approved = False, employee = 7\<rparr>] \<and>
   length (open_intervals (run_ledger [Start 7 None 1000, Start 7 None 2000]) 7) = 1 \<and>
   handleTrackingToggle (live_create 7) 3000
     (handleTrackingToggle (live_create 7) 2000
        (handleTrackingToggle (live_create 7) 1000 (False, [])))
     = (False, [\<lparr>start_time = 1000, end_time = None, description = None,
                  is_manual_entry = False, entry_id = 1, is_approved = False, employee = 7\<rparr>])"
proof -
  let ?iv = "\<lparr>start_time = 1000, end_time = None, description = None, is_manual_entry = False,
         entry_id = 1, is_approved = False, employee = 7\<rparr> :: interval"
  have first: "handleTrackingToggle (live_create 7) 1000 (False, []) = (True, [?iv])"
    by (simp add: handleTrackingToggle_def live_create_def startInterval_def
        open_intervals_def fresh_id_def topBar_start_body_def time_entry.truncate_def Let_def)
  have stop: "handleTrackingToggle (live_create 7) 2000 (True, [?iv]) = (False, [?iv])"
    by (simp add: handleTrackingToggle_def)
  have op: "open_intervals [?iv] 7 \<noteq> []"
    by (simp add: open_intervals_def)
  have run1: "run_ledger [Start 7 None 1000] = [?iv]"
    by (simp add: run_ledger_def committed_def startInterval_def open_intervals_def
        fresh_id_def Let_def)
  have again: "apply_op [?iv] (Start 7 None 2000) = [?iv] \<and>
      handleTrackingToggle (live_create 7) 3000 (False, [?iv]) = (False, [?iv])"
    using op
      at_most_one_open_interval [where emp = 7 and L = "[?iv]" and descr = None and now = 2000]
      at_most_one_open_interval [where emp = 7 and L = "[?iv]" and descr = None and now = 3000]
    by blast
  have run2: "run_ledger [Start 7 None 1000, Start 7 None 2000] = [?iv]"
    using run1 again by (simp add: run_ledger_def)
  have "length (open_intervals [?iv] 7) = 1"
    by (simp add: open_intervals_def)
  with first stop again run2 show ?thesis by simp
qed

section \<open>Properties of the leave workflow\<close>

lemma find_request_Some:
  "find_request requests i = Some r \<Longrightarrow> request_id r = i \<and> r \<in> set requests"
  by (auto simp: find_request_def find_Some_iff)

lemma find_map_other:
  assumes "\<And>x. x \<in> set L \<Longrightarrow> request_id x = i \<Longrightarrow> f x = x"
    and "\<And>x. x \<in> set L \<Longrightarrow> request_id x \<noteq> i \<Longrightarrow> request_id (f x) \<noteq> i"
  shows "find_request (map f L) i = find_request L i"
  using assms unfolding find_request_def
  by (induction L) auto

lemma find_map_same:
  assumes "find_request L i = Some r" and "request_id r' = i"
  shows "find_request (map (\<lambda>x. if request_id x = i then r' else x) L) i = Some r'"
  using assms unfolding find_request_def
  by (induction L) (auto split: if_splits)

lemma transition_Inr_pending:
  "transition allocation requests r action who = Inr r' \<Longrightarrow>
   status r = Pending \<and> request_id r' = request_id r"
  by (auto simp: transition_def Let_def split: if_splits leave_action.splits)

lemma transition_terminal:
  "status r \<noteq> Pending \<Longrightarrow> transition allocation requests r action who = Inl ConflictError"
  by (simp add: transition_def)

lemma attempt_keeps_terminal:
  assumes f: "find_request requests i = Some r" and t: "status r \<noteq> Pending"
  shows "find_request (attempt allocation requests a) i = Some r"
proof -
  obtain j action who where a: "a = (j, action, who)" by (cases a) auto
  show ?thesis
  proof (cases "transitionLeaveRequest allocation requests j action who")
    case (Inl e)
    with a f show ?thesis by (simp add: attempt_def)
  next
    case (Inr requests')
    then obtain rj r' where fj: "find_request requests j = Some rj"
      and tr: "transition allocation requests rj action who = Inr r'"
      and req': "requests' = map (\<lambda>x. if request_id x = j then r' else x) requests"
      by (auto simp: transitionLeaveRequest_def split: option.splits sum.splits)
    from tr have pj: "status rj = Pending" and idr': "request_id r' = request_id rj"
      by (simp_all add: transition_Inr_pending)
    from fj have idj: "request_id rj = j" by (simp add: find_request_Some)
    have "j \<noteq> i" using f fj pj t by auto
    with idr' idj have "find_request requests' i = find_request requests i"
      unfolding req' by (intro find_map_other) auto
    with a Inr f show ?thesis by (simp add: attempt_def)
  qed
qed

lemma attempts_keep_terminal:
  "find_request requests i = Some r \<Longrightarrow> status r \<noteq> Pending \<Longrightarrow>
   find_request (attempts allocation requests as) i = Some r"
  unfolding attempts_def
proof (induction as arbitrary: requests)
  case Nil
  then show ?case by simp
next
  case (Cons a as)
  from Cons.prems have "find_request (attempt allocation requests a) i = Some r"
    by (rule attempt_keeps_terminal)
  then show ?case
    unfolding foldl_Cons using Cons.prems(2) by (rule Cons.IH)
qed

lemma rowActions_status:
  "rowActions (status_string s) = (if s = Pending then [EditAction, CancelAction] else [])"
  by (cases s) (simp_all add: rowActions_def)

lemma request_years_iff: "y \<in> set (request_years r) \<longleftrightarrow> intersects_year r y"
  by (simp add: request_years_def intersects_year_def)

lemma over_allocated_iff:
  "over_allocated allocation requests r y \<longleftrightarrow>
   allocated (getBalance allocation requests (requester r) (kind r) y)
     < used (getBalance allocation requests (requester r) (kind r) y) + request_days r"
  by (simp add: over_allocated_def Let_def)

lemma approve_refused:
  assumes "find_request requests i = Some r" and "status r = Pending"
    and "actor_role who = Admin"
    and "intersects_year r y"
    and "allocated (getBalance allocation requests (requester r) (kind r) y)
         < used (getBalance allocation requests (requester r) (kind r) y) + request_days r"
  shows "transitionLeaveRequest allocation requests i Approve who = Inl ValidationError"
proof -
  from assms(4,5) have "y \<in> set (filter (over_allocated allocation requests r) (request_years r))"
    by (simp add: request_years_iff over_allocated_iff)
  then have "filter (over_allocated allocation requests r) (request_years r) \<noteq> []"
    by (metis empty_iff empty_set)
  with assms(1-3) show ?thesis
    by (simp add: transitionLeaveRequest_def transition_def)
qed

lemma approve_granted:
  assumes "find_request requests i = Some r" and "status r = Pending"
    and "actor_role who = Admin"
    and "\<forall>y. intersects_year r y \<longrightarrow>
           used (getBalance allocation requests (requester r) (kind r) y) + request_days r
           \<le> allocated (getBalance allocation requests (requester r) (kind r) y)"
  shows "transitionLeaveRequest allocation requests i Approve who
       = Inr (map (\<lambda>x. if request_id x = i then r\<lparr>status := Approved\<rparr> else x) requests)"
proof -
  from assms(4) have "filter (over_allocated allocation requests r) (request_years r) = []"
    by (auto simp: filter_empty_conv request_years_iff over_allocated_iff)
  with assms(1-3) show ?thesis
    by (simp add: transitionLeaveRequest_def transition_def)
qed

text \<open>
  Claim C5. Approving a pending leave request checks the balance of the employee for the
  type of the request in every year that the request intersects: when approving would
  make \<open>used\<close> exceed \<open>allocated\<close> in such a year the approval fails with
  \<open>ValidationError\<close>, the stored requests are unchanged and the request stays pending;
  when the balance suffices in all of them the request becomes approved.
\<close>

theorem approval_checks_balance:
  "find_request requests i = Some r \<and> status r = Pending \<and> actor_role who = Admin \<longrightarrow>
   (intersects_year r y \<and>
    allocated (getBalance allocation requests (requester r) (kind r) y)
      < used (getBalance allocation requests (requester r) (kind r) y) + request_days r \<longrightarrow>
      transitionLeaveRequest allocation requests i Approve who = Inl ValidationError \<and>
      attempt allocation requests (i, Approve, who) = requests \<and>
      map_option status (find_request (attempt allocation requests (i, Approve, who)) i)
        = Some Pending) \<and>
   ((\<forall>y. intersects_year r y \<longrightarrow>
        used (getBalance allocation requests (requester r) (kind r) y) + request_days r
        \<le> allocated (getBalance allocation requests (requester r) (kind r) y)) \<longrightarrow>
      map_option status (find_request (attempt allocation requests (i, Approve, who)) i)
        = Some Approved)"
proof (intro impI conjI)
  assume h: "find_request requests i = Some r \<and> status r = Pending \<and> actor_role who = Admin"
  assume "intersects_year r y \<and>
    allocated (getBalance allocation requests (requester r) (kind r) y)
      < used (getBalance allocation requests (requester r) (kind r) y) + request_days r"
  with h show a: "transitionLeaveRequest allocation requests i Approve who = Inl ValidationError"
    using approve_refused [where y = y and r = r] by blast
  then show b: "attempt allocation requests (i, Approve, who) = requests"
    by (simp add: attempt_def)
  with h show "map_option status (find_request (attempt allocation requests (i, Approve, who)) i)
        = Some Pending" by simp
next
  assume h: "find_request requests i = Some r \<and> status r = Pending \<and> actor_role who = Admin"
  assume "\<forall>y. intersects_year r y \<longrightarrow>
        used (getBalance allocation requests (requester r) (kind r) y) + request_days r
        \<le> allocated (getBalance allocation requests (requester r) (kind r) y)"
  with h have "transitionLeaveRequest allocation requests i Approve who
       = Inr (map (\<lambda>x. if request_id x = i then r\<lparr>status := Approved\<rparr> else x) requests)"
    using approve_granted [where r = r] by blast
  moreover have "find_request
        (map (\<lambda>x. if request_id x = i then r\<lparr>status := Approved\<rparr> else x) requests) i
       = Some (r\<lparr>status := Approved\<rparr>)"
    using h by (intro find_map_same) (auto dest: find_request_Some)
  ultimately show "map_option status
        (find_request (attempt allocation requests (i, Approve, who)) i) = Some Approved"
    by (simp add: attempt_def)
qed

text \<open>
  The scenario of the specification: allocation 25 for vacation, 20 approved vacation
  days in 2024, and a pending request of 6 days. A pending request from 2023-12-29 to
  2024-01-08 is refused as well, for 2024; a pending request of 5 days is approved.
\<close>

theorem approval_checks_balance_witness:
  "getBalance standard_allocation
     [\<lparr>request_id = 11, requester = 7, kind = Vacation, first_day = 19800,
       last_day = 19819, status = Approved, request_reason = None\<rparr>,
      \<lparr>request_id = 12, requester = 7, kind = Vacation, first_day = 19830,
       last_day = 19835, status = Pending, request_reason = None\<rparr>,
      \<lparr>request_id = 13, requester = 7, kind = Vacation, first_day = 19720,
       last_day = 19730, status = Pending, request_reason = None\<rparr>] 7 Vacation 2024
     = \<lparr>allocated = 25, used = 20, remaining = 5, reserved = 17\<rparr> \<and>
   getBalance standard_allocation
     [\<lparr>request_id = 11, requester = 7, kind = Vacation, first_day = 19800,
       last_day = 19819, status = Approved, request_reason = None\<rparr>,
      \<lparr>request_id = 12, requester = 7, kind = Vacation, first_day = 19830,
       last_day = 19835, status = Pending, request_reason = None\<rparr>,
      \<lparr>request_id = 13, requester = 7, kind = Vacation, first_day = 19720,
       last_day = 19730, status = Pending, request_reason = None\<rparr>] 7 Vacation 2023
     = \<lparr>allocated = 25, used = 0, remaining = 25, reserved = 11\<rparr> \<and>
   transitionLeaveRequest standard_allocation
     [\<lparr>request_id = 11, requester = 7, kind = Vacation, first_day = 19800,
       last_day = 19819, status = Approved, request_reason = None\<rparr>,
      \<lparr>request_id = 12, requester = 7, kind = Vacation, first_day = 19830,
       last_day = 19835, status = Pending, request_reason = None\<rparr>,
      \<lparr>request_id = 13, requester = 7, kind = Vacation, first_day = 19720,
       last_day = 19730, status = Pending, request_reason = None\<rparr>]
     12 Approve \<lparr>actor_id = 3, actor_role = Admin\<rparr> = Inl ValidationError \<and>
   transitionLeaveRequest standard_allocation
     [\<lparr>request_id = 11, requester = 7, kind = Vacation, first_day = 19800,
       last_day = 19819, status = Approved, request_reason = None\<rparr>,
      \<lparr>request_id = 12, requester = 7, kind = Vacation, first_day = 19830,
       last_day = 19835, status = Pending, request_reason = None\<rparr>,
      \<lparr>request_id = 13, requester = 7, kind = Vacation, first_day = 19720,
       last_day = 19730, status = Pending, request_reason = None\<rparr>]
     13 Approve \<lparr>actor_id = 3, actor_role = Admin\<rparr> = Inl ValidationError \<and>
   map_option status (find_request
     (attempt standard_allocation
        [\<lparr>request_id = 11, requester = 7, kind = Vacation, first_day = 19800,
          last_day = 19819, status = Approved, request_reason = None\<rparr>,
         \<lparr>request_id = 12, requester = 7, kind = Vacation, first_day = 19830,
          last_day = 19835, status = Pending, request_reason = None\<rparr>,
         \<lparr>request_id = 13, requester = 7, kind = Vacation, first_day = 19720,
          last_day = 19730, status = Pending, request_reason = None\<rparr>]
        (12, Approve, \<lparr>actor_id = 3, actor_role = Admin\<rparr>)) 12) = Some Pending \<and>
   map_option status (find_request
     (attempt standard_allocation
        [\<lparr>request_id = 11, requester = 7, kind = Vacation, first_day = 19800,
          last_day = 19819, status = Approved, request_reason = None\<rparr>,
         \<lparr>request_id = 14, requester = 7, kind = Vacation, first_day = 19830,
          last_day = 19834, status = Pending, request_reason = None\<rparr>]
        (14, Approve, \<lparr>actor_id = 3, actor_role = Admin\<rparr>)) 14) = Some Approved"
proof -
  let ?r1 = "\<lparr>request_id = 11, requester = 7, kind = Vacation, first_day = 19800,
       last_day = 19819, status = Approved, request_reason = None\<rparr>"
  let ?r2 = "\<lparr>request_id = 12, requester = 7, kind = Vacation, first_day = 19830,
       last_day = 19835, status = Pending, request_reason = None\<rparr>"
  let ?r3 = "\<lparr>request_id = 13, requester = 7, kind = Vacation, first_day = 19720,
       last_day = 19730, status = Pending, request_reason = None\<rparr>"
  let ?r4 = "\<lparr>request_id = 14, requester = 7, kind = Vacation, first_day = 19830,
       last_day = 19834, status = Pending, request_reason = None\<rparr>"
  let ?admin = "\<lparr>actor_id = 3, actor_role = Admin\<rparr>"
  let ?rs = "[?r1, ?r2, ?r3]"
  have y: "year_of_day 19800 = 2024" "year_of_day 19819 = 2024"
    "year_of_day 19830 = 2024" "year_of_day 19835 = 2024" "year_of_day 19834 = 2024"
    "year_of_day 19720 = 2023" "year_of_day 19730 = 2024"
    unfolding year_of_day_def Let_def by simp_all
  have bal24: "getBalance standard_allocation ?rs 7 Vacation 2024
      = \<lparr>allocated = 25, used = 20, remaining = 5, reserved = 17\<rparr>"
    by (simp add: getBalance_def days_with_status_def request_days_def intersects_year_def y)
  have bal23: "getBalance standard_allocation ?rs 7 Vacation 2023
      = \<lparr>allocated = 25, used = 0, remaining = 25, reserved = 11\<rparr>"
    by (simp add: getBalance_def days_with_status_def request_days_def intersects_year_def y)
  have f2: "find_request ?rs 12 = Some ?r2" and f3: "find_request ?rs 13 = Some ?r3"
    by (simp_all add: find_request_def)
  have i2: "intersects_year ?r2 2024" and i3: "intersects_year ?r3 2024"
    by (simp_all add: intersects_year_def y)
  have over2: "allocated (getBalance standard_allocation ?rs (requester ?r2) (kind ?r2) 2024)
      < used (getBalance standard_allocation ?rs (requester ?r2) (kind ?r2) 2024)
        + request_days ?r2"
    by (simp add: bal24 request_days_def)
  have over3: "allocated (getBalance standard_allocation ?rs (requester ?r3) (kind ?r3) 2024)
      < used (getBalance standard_allocation ?rs (requester ?r3) (kind ?r3) 2024)
        + request_days ?r3"
    by (simp add: bal24 request_days_def)
  have A: "transitionLeaveRequest standard_allocation ?rs 12 Approve ?admin
          = Inl ValidationError \<and>
        map_option status (find_request
          (attempt standard_allocation ?rs (12, Approve, ?admin)) 12) = Some Pending"
    using approval_checks_balance
      [where requests = ?rs and i = 12 and r = ?r2 and who = ?admin
         and allocation = standard_allocation and y = 2024] f2 i2 over2
    by simp
  have B: "transitionLeaveRequest standard_allocation ?rs 13 Approve ?admin
          = Inl ValidationError"
    using approval_checks_balance
      [where requests = ?rs and i = 13 and r = ?r3 and who = ?admin
         and allocation = standard_allocation and y = 2024] f3 i3 over3
    by simp
  have f4: "find_request [?r1, ?r4] 14 = Some ?r4"
    by (simp add: find_request_def)
  have fits: "\<forall>y. intersects_year ?r4 y \<longrightarrow>
        used (getBalance standard_allocation [?r1, ?r4] (requester ?r4) (kind ?r4) y)
          + request_days ?r4
        \<le> allocated (getBalance standard_allocation [?r1, ?r4] (requester ?r4) (kind ?r4) y)"
    by (auto simp: getBalance_def days_with_status_def request_days_def intersects_year_def y)
  have C: "map_option status (find_request
          (attempt standard_allocation [?r1, ?r4] (14, Approve, ?admin)) 14) = Some Approved"
    using approval_checks_balance
      [where requests = "[?r1, ?r4]" and i = 14 and r = ?r4 and who = ?admin
         and allocation = standard_allocation] f4 fits
    by simp
  from bal24 bal23 A B C show ?thesis by simp
qed

text \<open>
  Claim C6. A leave request in a terminal status (approved, rejected or canceled) never
  changes status again: every attempted transition fails with \<open>ConflictError\<close>, the
  stored request is the same after any history of attempts, and the requests table
  offers the edit and cancel actions only for a pending request.
\<close>

theorem terminal_status_is_final:
  "(find_request requests i = Some r \<and> status r \<noteq> Pending \<longrightarrow>
      transitionLeaveRequest allocation requests i action who = Inl ConflictError \<and>
      find_request (attempts allocation requests as) i = Some r) \<and>
   rowActions (status_string s) = (if s = Pending then [EditAction, CancelAction] else [])"
  using attempts_keep_terminal [of requests i r allocation as] rowActions_status [of s]
  by (auto simp: transitionLeaveRequest_def transition_terminal)

theorem terminal_status_is_final_witness:
  "transitionLeaveRequest standard_allocation
     [\<lparr>request_id = 11, requester = 7, kind = Vacation, first_day = 19800,
       last_day = 19819, status = Approved, request_reason = None\<rparr>]
     11 Cancel \<lparr>actor_id = 7, actor_role = Normal\<rparr> = Inl ConflictError \<and>
   find_request
     (attempts standard_allocation
        [\<lparr>request_id = 11, requester = 7, kind = Vacation, first_day = 19800,
          last_day = 19819, status = Approved, request_reason = None\<rparr>]
        [(11, Reject, \<lparr>actor_id = 3, actor_role = Admin\<rparr>),
         (11, Cancel, \<lparr>actor_id = 7, actor_role = Normal\<rparr>)]) 11
     = Some \<lparr>request_id = 11, requester = 7, kind = Vacation, first_day = 19800,
             last_day = 19819, status = Approved, request_reason = None\<rparr> \<and>
   rowActions (status_string Approved) = [] \<and>
   rowActions (status_string Rejected) = [] \<and>
   rowActions (status_string Canceled) = [] \<and>
   rowActions (status_string Pending) = [EditAction, CancelAction]"
proof -
  let ?r1 = "\<lparr>request_id = 11, requester = 7, kind = Vacation, first_day = 19800,
       last_day = 19819, status = Approved, request_reason = None\<rparr>"
  have f: "find_request [?r1] 11 = Some ?r1"
    by (simp add: find_request_def)
  have t: "status ?r1 \<noteq> Pending" by simp
  show ?thesis
    using f t
      terminal_status_is_final
        [where requests = "[?r1]" and i = 11 and r = ?r1 and allocation = standard_allocation
           and action = Cancel and who = "\<lparr>actor_id = 7, actor_role = Normal\<rparr>"
           and as = "[(11, Reject, \<lparr>actor_id = 3, actor_role = Admin\<rparr>),
                     (11, Cancel, \<lparr>actor_id = 7, actor_role = Normal\<rparr>)]"
           and s = Approved]
      terminal_status_is_final [where s = Rejected]
      terminal_status_is_final [where s = Canceled]
      terminal_status_is_final [where s = Pending]
    by simp
qed

end
